theory Spec2Isabelle
  imports Complex_Main
begin

section \<open>The sleeping-barber simulation of src/pages/Index.tsx\<close>

text \<open>
  The simulation is the React component \<open>Index\<close> of
  \<^verbatim>\<open>src/pages/Index.tsx\<close> (its lines 1-1354; the line numbers below are
  lines of that file). Its engine is a set of handlers defined inside the component:
  \<open>addCustomerWithName\<close>, \<open>processTimeStep\<close>, \<open>addRandomCustomer\<close>,
  \<open>updateBarberCount\<close>, \<open>updateChairCount\<close>, and the memoised \<open>averageWaitTime\<close>.
  The progress-bar callback \<open>handleServiceComplete\<close>, \<open>startHaircuts\<close> and the
  animation loop that calls \<open>processTimeStep\<close> are outside the properties studied here
  and are not modelled.

  How the component's state is modelled. Every \<open>useState\<close> variable is a field of the
  record \<open>Sim\<close>. In the source the variables \<open>barbers\<close>, \<open>waitingCustomers\<close>,
  \<open>currentCustomers\<close>, \<open>currentTime\<close>, \<open>nextCustomerId\<close>, ... are \<open>const\<close> bindings made
  by \<open>useState\<close> in the component body (lines 59-74), and a handler is a closure of that
  body: what it reads are the values of one render, which do not change while the handler
  runs, whatever setters it calls. A setter either replaces the pending value
  (\<open>setX(v)\<close>) or maps it (\<open>setX(prev => f(prev))\<close>). So every handler below takes two
  states: \<open>s\<close>, the snapshot of the render it closes over, which is all it reads, and
  \<open>p\<close>, the pending state its setters write. An event arriving from outside runs
  \<open>handler s s\<close>; a handler called by another handler of the same render
  (\<open>processTimeStep\<close> calls \<open>addRandomCustomer\<close>, line 724, which calls
  \<open>addCustomerWithName\<close>) keeps \<open>s\<close> and continues on the caller's \<open>p\<close>.

  JavaScript numbers that hold times are modelled as \<open>real\<close> (exact arithmetic);
  ids, counts and indices as \<open>nat\<close>; an optional field as an \<open>option\<close>.
  Toasts, the notification counter and the highlight indices
  (\<open>lastActiveBarber\<close>, \<open>lastServedCustomer\<close>) are presentation and are left out.
\<close>

subsection \<open>Data model (lines 21-54)\<close>

datatype CustomerState = WAITING | GETTING_HAIRCUT | SERVED | TURNED_AWAY

datatype BarberState = SLEEPING | WORKING

record Customer =
  c_id :: nat
  c_name :: string
  c_state :: CustomerState
  timeArrived :: real
  timeServed :: "real option"
  timeLeft :: "real option"
  servedBy :: "nat option"
  waitingPosition :: "nat option"
  c_serviceEndTime :: "real option"

record Barber =
  b_id :: nat
  b_state :: BarberState
  servingCustomerId :: "nat option"
  totalCustomersServed :: nat
  currentServiceStartTime :: "real option"
  b_serviceEndTime :: "real option"

text \<open>The \<open>useState\<close> variables of the component (lines 59-74).\<close>

record Sim =
  numBarbers :: nat
  numChairs :: nat
  serviceTime :: real
  arrivalRate :: real
  isRunning :: bool
  isPaused :: bool
  currentTime :: real
  nextCustomerId :: nat
  barbers :: "Barber list"
  waitingCustomers :: "Customer list"
  currentCustomers :: "Customer list"
  servedCustomers :: "Customer list"
  turnedAwayCustomers :: "Customer list"

text \<open>
  \<open>TypeError\<close> is the exception JavaScript throws on reading a property of
  \<open>undefined\<close>. A handler that throws has already run some setters; the result
  \<open>Inl (TypeError, p)\<close> carries the pending state they produced.
\<close>

datatype error = TypeError

subsection \<open>Initial state (lines 59-74 and 115-141)\<close>

definition initialState :: Sim where
  "initialState =
     \<lparr>numBarbers = 1, numChairs = 3, serviceTime = 10, arrivalRate = 3,
      isRunning = False, isPaused = False, currentTime = 0, nextCustomerId = 1,
      barbers = [], waitingCustomers = [], currentCustomers = [],
      servedCustomers = [], turnedAwayCustomers = []\<rparr>"

definition newBarber :: "nat \<Rightarrow> Barber" where
  "newBarber i =
     \<lparr>b_id = i, b_state = SLEEPING, servingCustomerId = None, totalCustomersServed = 0,
      currentServiceStartTime = None, b_serviceEndTime = None\<rparr>"

definition initializeSimulation :: "Sim \<Rightarrow> Sim \<Rightarrow> Sim" where
  "initializeSimulation s p =
     p\<lparr>barbers := map (\<lambda>index. newBarber (index + 1)) [0..<numBarbers s],
       waitingCustomers := [], currentCustomers := [], servedCustomers := [],
       turnedAwayCustomers := [], currentTime := 0, nextCustomerId := 1,
       isPaused := False\<rparr>"

subsection \<open>Admission: \<open>addCustomerWithName\<close> (lines 201-301)\<close>

text \<open>\<open>Array.prototype.findIndex\<close>; \<open>None\<close> stands for the result \<open>-1\<close>.\<close>

fun findIndex :: "('a \<Rightarrow> bool) \<Rightarrow> 'a list \<Rightarrow> nat option" where
  "findIndex P [] = None"
| "findIndex P (x # xs) = (if P x then Some 0 else map_option Suc (findIndex P xs))"

text \<open>
  Lines 246-251 and 274-279: \<open>if (!isRunning) { setIsRunning(true); setIsPaused(false); ... }\<close>.
\<close>

definition startIfNotRunning :: "Sim \<Rightarrow> Sim \<Rightarrow> Sim" where
  "startIfNotRunning s p = (if \<not> isRunning s then p\<lparr>isRunning := True, isPaused := False\<rparr> else p)"

definition addCustomerWithName :: "string \<Rightarrow> Sim \<Rightarrow> Sim \<Rightarrow> Sim" where
  "addCustomerWithName name s p =
     (let nextId = nextCustomerId s in
      case findIndex (\<lambda>b. b_state b = SLEEPING) (barbers s) of
        Some sleepingBarberId \<Rightarrow>
          (let serviceEndTime = currentTime s + serviceTime s;
               updatedBarbers = (barbers s)[sleepingBarberId :=
                  (barbers s ! sleepingBarberId)
                    \<lparr>b_state := WORKING, servingCustomerId := Some nextId,
                     currentServiceStartTime := Some (currentTime s),
                     b_serviceEndTime := Some serviceEndTime\<rparr>];
               newCustomer =
                 \<lparr>c_id = nextId, c_name = name, c_state = GETTING_HAIRCUT,
                  timeArrived = currentTime s, timeServed = Some (currentTime s),
                  timeLeft = None, servedBy = Some (sleepingBarberId + 1),
                  waitingPosition = None, c_serviceEndTime = Some serviceEndTime\<rparr>
           in startIfNotRunning s
                (p\<lparr>barbers := updatedBarbers,
                   currentCustomers := currentCustomers p @ [newCustomer],
                   nextCustomerId := nextId + 1\<rparr>))
      | None \<Rightarrow>
          if length (waitingCustomers s) < numChairs s then
            (let newCustomer =
                 \<lparr>c_id = nextId, c_name = name, c_state = WAITING,
                  timeArrived = currentTime s, timeServed = None, timeLeft = None,
                  servedBy = None, waitingPosition = Some (length (waitingCustomers s)),
                  c_serviceEndTime = None\<rparr>
             in startIfNotRunning s
                  (p\<lparr>waitingCustomers := waitingCustomers p @ [newCustomer],
                     nextCustomerId := nextId + 1\<rparr>))
          else
            (let newCustomer =
                 \<lparr>c_id = nextId, c_name = name, c_state = TURNED_AWAY,
                  timeArrived = currentTime s, timeServed = None,
                  timeLeft = Some (currentTime s), servedBy = None,
                  waitingPosition = None, c_serviceEndTime = None\<rparr>
             in p\<lparr>turnedAwayCustomers := turnedAwayCustomers p @ [newCustomer],
                  nextCustomerId := nextId + 1\<rparr>))"

subsection \<open>Random arrival: \<open>addRandomCustomer\<close> (lines 729-733)\<close>

definition randomNames :: "string list" where
  "randomNames = [''Alex'', ''Sam'', ''Jamie'', ''Taylor'', ''Jordan'',
                  ''Casey'', ''Avery'', ''Riley'', ''Quinn'', ''Morgan'']"

text \<open>The decimal digits of a number, as string concatenation writes them.\<close>

fun numberToString :: "nat \<Rightarrow> string" where
  "numberToString n =
     (if n < 10 then [''0123456789'' ! n]
      else numberToString (n div 10) @ [''0123456789'' ! (n mod 10)])"

declare numberToString.simps [simp del]

text \<open>
  \<open>v\<close> is the value \<open>Math.random()\<close> returns for the name. An index outside the
  table reads \<open>undefined\<close>, which string concatenation writes out.
\<close>

definition addRandomCustomer :: "real \<Rightarrow> Sim \<Rightarrow> Sim \<Rightarrow> Sim" where
  "addRandomCustomer v s p =
     (let k = \<lfloor>v * real (length randomNames)\<rfloor>;
          randomName =
            (if 0 \<le> k \<and> k < int (length randomNames) then randomNames ! nat k
             else ''undefined'') @ '' '' @ numberToString (nextCustomerId s)
      in addCustomerWithName randomName s p)"

subsection \<open>The time step: \<open>processTimeStep\<close> (lines 601-726)\<close>

text \<open>The local variables of one call (lines 608-611).\<close>

record Locals =
  updatedBarbers :: "Barber list"
  finishedCustomers :: "Customer list"
  updatedCurrentCustomers :: "Customer list"
  customersToRemove :: "nat list"

text \<open>
  The body of \<open>currentCustomers.forEach\<close> (lines 614-706) for one customer.
  \<open>customer.serviceEndTime\<close> is used as a condition, so an unset end time and the end
  time 0 both skip the customer. \<open>updatedBarbers[barberId]\<close> with
  \<open>barberId = customer.servedBy - 1\<close> outside the array is \<open>undefined\<close>, and reading
  its \<open>totalCustomersServed\<close> throws. The waiting queue read here is the render's
  \<open>waitingCustomers\<close>, the same for every customer of the loop;
  \<open>setWaitingCustomers(newWaiting)\<close> replaces the pending queue.
\<close>

definition finishCustomer ::
    "Sim \<Rightarrow> real \<Rightarrow> Customer \<Rightarrow> Locals \<times> Sim \<Rightarrow> (error \<times> Sim) + (Locals \<times> Sim)" where
  "finishCustomer s newTime customer lp =
     (case lp of (l, p) \<Rightarrow>
      (case c_serviceEndTime customer of
        None \<Rightarrow> Inr (l, p)
      | Some endTime \<Rightarrow>
          if c_state customer = GETTING_HAIRCUT \<and> endTime \<noteq> 0 then
            if newTime \<ge> endTime then
              (let finishedCustomer = customer\<lparr>c_state := SERVED, timeLeft := Some endTime\<rparr>;
                   l1 = l\<lparr>finishedCustomers := finishedCustomers l @ [finishedCustomer],
                          customersToRemove := customersToRemove l @ [c_id customer]\<rparr>
               in case servedBy customer of
                    None \<Rightarrow> Inl (TypeError, p)
                  | Some sb \<Rightarrow>
                      if sb = 0 \<or> length (updatedBarbers l1) \<le> sb - 1 then Inl (TypeError, p)
                      else
                        (let barberId = sb - 1;
                             ub1 = (updatedBarbers l1)[barberId :=
                                (updatedBarbers l1 ! barberId)
                                  \<lparr>totalCustomersServed :=
                                     totalCustomersServed (updatedBarbers l1 ! barberId) + 1,
                                   servingCustomerId := None\<rparr>]
                         in case waitingCustomers s of
                              nextCustomer # rest \<Rightarrow>
                                (let nextServiceEndTime = newTime + serviceTime s;
                                     updatedNextCustomer = nextCustomer
                                       \<lparr>c_state := GETTING_HAIRCUT, timeServed := Some newTime,
                                        servedBy := Some (barberId + 1),
                                        c_serviceEndTime := Some nextServiceEndTime,
                                        waitingPosition := None\<rparr>;
                                     ub2 = ub1[barberId := (ub1 ! barberId)
                                       \<lparr>servingCustomerId := Some (c_id nextCustomer),
                                        currentServiceStartTime := Some newTime,
                                        b_serviceEndTime := Some nextServiceEndTime,
                                        b_state := WORKING\<rparr>];
                                     newWaiting = map (\<lambda>(idx, c). c\<lparr>waitingPosition := Some idx\<rparr>)
                                                    (enumerate 0 rest)
                                 in Inr (l1\<lparr>updatedBarbers := ub2,
                                            updatedCurrentCustomers :=
                                              updatedCurrentCustomers l1 @ [updatedNextCustomer]\<rparr>,
                                         p\<lparr>waitingCustomers := newWaiting\<rparr>))
                            | [] \<Rightarrow>
                                Inr (l1\<lparr>updatedBarbers := ub1[barberId := (ub1 ! barberId)
                                           \<lparr>b_state := SLEEPING, servingCustomerId := None,
                                            currentServiceStartTime := None,
                                            b_serviceEndTime := None\<rparr>]\<rparr>,
                                     p)))
            else Inr (l, p)
          else Inr (l, p)))"

text \<open>\<open>forEach\<close>: the body on every element in order; a throw ends the loop.\<close>

fun forEach ::
    "('a \<Rightarrow> 'b \<Rightarrow> 'e + 'b) \<Rightarrow> 'a list \<Rightarrow> 'b \<Rightarrow> 'e + 'b" where
  "forEach f [] acc = Inr acc"
| "forEach f (x # xs) acc = (case f x acc of Inl e \<Rightarrow> Inl e | Inr acc' \<Rightarrow> forEach f xs acc')"

text \<open>
  \<open>u\<close> is the value of \<open>Math.random()\<close> in the arrival test of line 723, \<open>v\<close>
  the one \<open>addRandomCustomer\<close> draws. The arrival runs in the closure of the same
  render: it reads \<open>s\<close> and writes on the pending state the step has produced.
\<close>

definition processTimeStep ::
    "real \<Rightarrow> real \<Rightarrow> real \<Rightarrow> Sim \<Rightarrow> Sim \<Rightarrow> (error \<times> Sim) + Sim" where
  "processTimeStep u v timeStep s p =
     (if \<not> isRunning s \<or> isPaused s then Inr p
      else
        (let newTime = currentTime s + timeStep;
             p1 = p\<lparr>currentTime := newTime\<rparr>
         in case forEach (finishCustomer s newTime) (currentCustomers s)
                   (\<lparr>updatedBarbers = barbers s, finishedCustomers = [],
                     updatedCurrentCustomers = currentCustomers s,
                     customersToRemove = []\<rparr>, p1) of
              Inl e \<Rightarrow> Inl e
            | Inr (l, p2) \<Rightarrow>
                (let remainingCustomers =
                       filter (\<lambda>customer. c_id customer \<notin> set (customersToRemove l))
                         (updatedCurrentCustomers l);
                     p3 = p2\<lparr>barbers := updatedBarbers l,
                             currentCustomers := remainingCustomers\<rparr>;
                     p4 = (if length (finishedCustomers l) > 0
                           then p3\<lparr>servedCustomers := servedCustomers p3 @ finishedCustomers l\<rparr>
                           else p3)
                 in Inr (if u < (arrivalRate s / 60) * timeStep \<and> isRunning s \<and> \<not> isPaused s
                         then addRandomCustomer v s p4 else p4))))"

subsection \<open>Capacity changes: \<open>updateBarberCount\<close>, \<open>updateChairCount\<close> (lines 736-800)\<close>

text \<open>
  The loop of lines 756-761, \<open>for (i = barbers.length - 1; i >= 0 && removedCount < toRemove; i--)\<close>.
  The first argument is \<open>i + 1\<close>, so that 0 is the exit \<open>i < 0\<close>;
  \<open>splice(i, 1)\<close> deletes the element at \<open>i\<close>. The index \<open>i\<close> is always inside the
  array: only elements at or above it have been deleted.
\<close>

fun removeLoop :: "nat \<Rightarrow> nat \<Rightarrow> nat \<Rightarrow> Barber list \<Rightarrow> Barber list" where
  "removeLoop 0 toRemove removedCount bs = bs"
| "removeLoop (Suc i) toRemove removedCount bs =
     (if removedCount < toRemove then
        (if b_state (bs ! i) = SLEEPING
         then removeLoop i toRemove (removedCount + 1) (take i bs @ drop (Suc i) bs)
         else removeLoop i toRemove removedCount bs)
      else bs)"

text \<open>Lines 764-766: \<open>barber.id = index + 1\<close> for every remaining barber.\<close>

definition renumber :: "Barber list \<Rightarrow> Barber list" where
  "renumber bs = map (\<lambda>(index, barber). barber\<lparr>b_id := index + 1\<rparr>) (enumerate 0 bs)"

definition clampCount :: "int \<Rightarrow> int \<Rightarrow> nat" where
  "clampCount hi newCount =
     (let n1 = (if newCount < 1 then 1 else newCount);
          n2 = (if n1 > hi then hi else n1)
      in nat n2)"

text \<open>
  \<open>Array.from({ length: newCount - currentBarberCount })\<close> is empty when the length
  is negative, which is what the subtraction of \<open>nat\<close> gives.
\<close>

definition updateBarberCount :: "int \<Rightarrow> Sim \<Rightarrow> Sim \<Rightarrow> Sim" where
  "updateBarberCount newCount0 s p =
     (let newCount = clampCount 5 newCount0 in
      if newCount > numBarbers s then
        (let currentBarberCount = length (barbers s);
             newBarbers = map (\<lambda>index. newBarber (currentBarberCount + index + 1))
                            [0..<newCount - currentBarberCount]
         in p\<lparr>barbers := barbers p @ newBarbers, numBarbers := newCount\<rparr>)
      else if newCount < numBarbers s then
        p\<lparr>barbers := renumber (removeLoop (length (barbers s)) (numBarbers s - newCount) 0 (barbers s)),
          numBarbers := newCount\<rparr>
      else p\<lparr>numBarbers := newCount\<rparr>)"

definition updateChairCount :: "int \<Rightarrow> Sim \<Rightarrow> Sim \<Rightarrow> Sim" where
  "updateChairCount newCount0 s p =
     (let newCount = clampCount 10 newCount0 in
      if newCount < numChairs s \<and> length (waitingCustomers s) > newCount then
        (let customersToTurnAway = drop newCount (waitingCustomers s);
             customersStaying = take newCount (waitingCustomers s);
             updatedTurnedAway =
               map (\<lambda>customer. customer\<lparr>c_state := TURNED_AWAY, timeLeft := Some (currentTime s)\<rparr>)
                 customersToTurnAway
         in p\<lparr>waitingCustomers := customersStaying,
              turnedAwayCustomers := turnedAwayCustomers p @ updatedTurnedAway,
              numChairs := newCount\<rparr>)
      else p\<lparr>numChairs := newCount\<rparr>)"

subsection \<open>Statistics: \<open>averageWaitTime\<close> (lines 90-103)\<close>

text \<open>\<open>Math.round\<close>: the nearest integer, a tie going up.\<close>

definition mathRound :: "real \<Rightarrow> real" where
  "mathRound x = of_int \<lfloor>x + 1 / 2\<rfloor>"

text \<open>\<open>customer.timeServed || customer.timeArrived\<close>: an unset or zero \<open>timeServed\<close> gives way.\<close>

definition servedOrArrived :: "Customer \<Rightarrow> real" where
  "servedOrArrived customer =
     (case timeServed customer of
        None \<Rightarrow> timeArrived customer
      | Some t \<Rightarrow> if t \<noteq> 0 then t else timeArrived customer)"

definition averageWaitTime :: "Customer list \<Rightarrow> real" where
  "averageWaitTime served =
     (if length served = 0 then 0
      else
        (let totalWaitTime =
               foldl (\<lambda>total customer. total + (servedOrArrived customer - timeArrived customer))
                 0 served
         in mathRound ((totalWaitTime / real (length served)) * 10) / 10))"

subsection \<open>Reachable states\<close>

text \<open>
  The states the simulation reaches from the mounted component (the \<open>useState\<close> defaults,
  then \<open>initializeSimulation\<close> from the mount effect) by manual additions, time steps
  that return, and changes of the barber and chair counts. A step takes a time delta
  that is not negative and two values of \<open>Math.random()\<close>, which lie in \<open>[0, 1)\<close>.
\<close>

inductive reachable :: "Sim \<Rightarrow> bool" where
  reach_init: "reachable (initializeSimulation initialState initialState)"
| reach_add: "reachable s \<Longrightarrow> reachable (addCustomerWithName name s s)"
| reach_step: "reachable s \<Longrightarrow> 0 \<le> timeStep \<Longrightarrow> 0 \<le> u \<Longrightarrow> u < 1 \<Longrightarrow> 0 \<le> v \<Longrightarrow> v < 1 \<Longrightarrow>
               processTimeStep u v timeStep s s = Inr s' \<Longrightarrow> reachable s'"
| reach_barbers: "reachable s \<Longrightarrow> reachable (updateBarberCount n s s)"
| reach_chairs: "reachable s \<Longrightarrow> reachable (updateChairCount n s s)"

subsection \<open>Properties of a state that the specification names\<close>

text \<open>
  Every customer created so far is held by exactly one of the four collections: the ids
  over the four lists together have no repetition and are the ids handed out.
\<close>

definition customersPartitioned :: "Sim \<Rightarrow> bool" where
  "customersPartitioned s =
     (let ids = map c_id (waitingCustomers s @ currentCustomers s @
                          servedCustomers s @ turnedAwayCustomers s)
      in distinct ids \<and> set ids = {1..<nextCustomerId s})"

text \<open>The queue fits the chairs, and the i-th queued customer has position i.\<close>

definition queueWellFormed :: "Sim \<Rightarrow> bool" where
  "queueWellFormed s =
     (length (waitingCustomers s) \<le> numChairs s \<and>
      map waitingPosition (waitingCustomers s) = map Some [0..<length (waitingCustomers s)])"

text \<open>
  The specification's average wait: the arithmetic mean over the served customers of
  \<open>serviceStartTime - arrivalTime\<close>, and 0 for no customer.
\<close>

definition spec_meanWait :: "Customer list \<Rightarrow> real" where
  "spec_meanWait served =
     (if served = [] then 0
      else (\<Sum>c\<leftarrow>served. the (timeServed c) - timeArrived c) / real (length served))"

text \<open>
  The specification's shrink of the barber pool, on the barbers listed from the highest
  id down: drop the first \<open>k\<close> sleeping barbers met, pass over the working ones, and stop
  when the list ends.
\<close>

fun spec_removeFromHighest :: "nat \<Rightarrow> Barber list \<Rightarrow> Barber list" where
  "spec_removeFromHighest 0 bs = bs"
| "spec_removeFromHighest (Suc k) [] = []"
| "spec_removeFromHighest (Suc k) (b # bs) =
     (if b_state b = SLEEPING then spec_removeFromHighest k bs
      else b # spec_removeFromHighest (Suc k) bs)"

text \<open>
  Every customer in service points, through \<open>servedBy\<close>, at a barber of the array; the
  time step reads that barber and throws when it is not there.
\<close>

definition servedByInRange :: "Sim \<Rightarrow> bool" where
  "servedByInRange s =
     (\<forall>c \<in> set (currentCustomers s).
        case servedBy c of None \<Rightarrow> False | Some sb \<Rightarrow> 0 < sb \<and> sb \<le> length (barbers s))"

subsection \<open>One completion, as the specification describes it\<close>

text \<open>
  Section 4.1 of the specification, steps 2 and 3, for one customer whose haircut ends in
  the step: the customer is finished when in service with an end time (not 0, which the
  code's test reads as unset) at or before the new time; its barber's counter goes up and
  the barber takes the head of the queue, or sleeps on an empty queue; the head of the
  queue enters service at the new time; the rest of the queue is renumbered from 0.
\<close>

definition finishes :: "real \<Rightarrow> Customer \<Rightarrow> bool" where
  "finishes newTime c =
     (c_state c = GETTING_HAIRCUT \<and>
      (case c_serviceEndTime c of None \<Rightarrow> False | Some e \<Rightarrow> e \<noteq> 0 \<and> e \<le> newTime))"

definition freedBarber :: "Sim \<Rightarrow> real \<Rightarrow> Barber \<Rightarrow> Barber" where
  "freedBarber s newTime b =
     (let counted = b\<lparr>totalCustomersServed := totalCustomersServed b + 1,
                      servingCustomerId := None\<rparr>
      in case waitingCustomers s of
           [] \<Rightarrow> counted\<lparr>b_state := SLEEPING, servingCustomerId := None,
                         currentServiceStartTime := None, b_serviceEndTime := None\<rparr>
         | nextCustomer # rest \<Rightarrow>
             counted\<lparr>servingCustomerId := Some (c_id nextCustomer),
                     currentServiceStartTime := Some newTime,
                     b_serviceEndTime := Some (newTime + serviceTime s), b_state := WORKING\<rparr>)"

definition promoted :: "Sim \<Rightarrow> real \<Rightarrow> nat \<Rightarrow> Customer list" where
  "promoted s newTime i =
     (case waitingCustomers s of
        [] \<Rightarrow> []
      | nextCustomer # rest \<Rightarrow>
          [nextCustomer\<lparr>c_state := GETTING_HAIRCUT, timeServed := Some newTime,
             servedBy := Some (i + 1), c_serviceEndTime := Some (newTime + serviceTime s),
             waitingPosition := None\<rparr>])"

definition queueAfterPromotion :: "Sim \<Rightarrow> Customer list" where
  "queueAfterPromotion s =
     (case waitingCustomers s of
        [] \<Rightarrow> []
      | nextCustomer # rest \<Rightarrow>
          map (\<lambda>(idx, c). c\<lparr>waitingPosition := Some idx\<rparr>) (enumerate 0 rest))"

text \<open>
  The whole loop of a step in closed form, for the customers due at the new time, in the
  order of \<open>currentCustomers\<close>: each is served with \<open>timeLeft\<close> its end time; its barber,
  the one at index \<open>servedBy - 1\<close>, is freed; a copy of the head of the render's queue is
  promoted for each of them; every customer with the id of a due one leaves
  \<open>currentCustomers\<close>. \<open>completions\<close> is the state a step without arrival ends in (lemma
  \<open>processTimeStep_completions\<close> below); \<open>dueInRange\<close> says that the barber of every due
  customer is in the array, without which the loop throws.
\<close>

definition servedAt :: "Customer \<Rightarrow> Customer" where
  "servedAt c = c\<lparr>c_state := SERVED, timeLeft := c_serviceEndTime c\<rparr>"

definition barberIndex :: "Customer \<Rightarrow> nat" where
  "barberIndex c = (case servedBy c of None \<Rightarrow> 0 | Some sb \<Rightarrow> sb - 1)"

definition freeBarbers :: "Sim \<Rightarrow> real \<Rightarrow> Customer list \<Rightarrow> Barber list \<Rightarrow> Barber list" where
  "freeBarbers s newTime due bs =
     foldl (\<lambda>bs c. bs[barberIndex c := freedBarber s newTime (bs ! barberIndex c)]) bs due"

definition dueInRange :: "Sim \<Rightarrow> real \<Rightarrow> bool" where
  "dueInRange s newTime =
     (\<forall>c \<in> set (currentCustomers s). finishes newTime c \<longrightarrow>
        (case servedBy c of None \<Rightarrow> False | Some sb \<Rightarrow> 0 < sb \<and> sb \<le> length (barbers s)))"

definition completions :: "Sim \<Rightarrow> real \<Rightarrow> Sim" where
  "completions s newTime =
     (let due = filter (finishes newTime) (currentCustomers s)
      in s\<lparr>currentTime := newTime,
           barbers := freeBarbers s newTime due (barbers s),
           currentCustomers :=
             filter (\<lambda>c. c_id c \<notin> set (map c_id due))
               (currentCustomers s @ concat (map (\<lambda>c. promoted s newTime (barberIndex c)) due)),
           servedCustomers := servedCustomers s @ map servedAt due,
           waitingCustomers := (if due = [] then waitingCustomers s else queueAfterPromotion s)\<rparr>)"

subsection \<open>Runs of the simulation used below\<close>

text \<open>
  The mounted component has one sleeping barber and three chairs, at time 0 with
  service time 10 and arrival rate 3 per minute.
\<close>

definition mounted :: Sim where
  "mounted = initializeSimulation initialState initialState"

text \<open>Customer A wakes the barber; B and C then wait on chairs.\<close>

definition oneBusy :: Sim where
  "oneBusy = addCustomerWithName ''A'' mounted mounted"

definition oneBusyOneWaiting :: Sim where
  "oneBusyOneWaiting = addCustomerWithName ''B'' oneBusy oneBusy"

definition oneBusyTwoWaiting :: Sim where
  "oneBusyTwoWaiting = addCustomerWithName ''C'' oneBusyOneWaiting oneBusyOneWaiting"

text \<open>Two barbers, A and B in service with both, C waiting.\<close>

definition twoBarbers :: Sim where
  "twoBarbers = updateBarberCount 2 mounted mounted"

definition twoBarbersOneBusy :: Sim where
  "twoBarbersOneBusy = addCustomerWithName ''A'' twoBarbers twoBarbers"

definition twoBusy :: Sim where
  "twoBusy = addCustomerWithName ''B'' twoBarbersOneBusy twoBarbersOneBusy"

definition twoBusyOneWaiting :: Sim where
  "twoBusyOneWaiting = addCustomerWithName ''C'' twoBusy twoBusy"

text \<open>One barber busy with A, B waiting, and a second barber added afterwards.\<close>

definition queueAndSleeper :: Sim where
  "queueAndSleeper = updateBarberCount 2 oneBusyOneWaiting oneBusyOneWaiting"

text \<open>Three barbers, the first two busy with A and B, the third asleep.\<close>

definition threeBarbersTwoBusy :: Sim where
  "threeBarbersTwoBusy =
     (let s1 = updateBarberCount 3 mounted mounted;
          s2 = addCustomerWithName ''A'' s1 s1
      in addCustomerWithName ''B'' s2 s2)"

text \<open>
  With two barbers, A in service and the second barber asleep, a step of 20 in which a
  customer arrives: the arrival is given to the second barber at the render's time 0, so
  at clock 20 its haircut, due at 10, is still in service.
\<close>

definition lateArrival :: Sim where
  "lateArrival =
     (case processTimeStep 0 0 20 twoBarbersOneBusy twoBarbersOneBusy of
        Inr s' \<Rightarrow> s' | Inl (e, p) \<Rightarrow> p)"

text \<open>
  With A in service and B waiting, the step of 10 in which a customer arrives (B is
  promoted, the arrival is queued at position 1), then customer D added by hand: two
  customers wait, both at position 1.
\<close>

definition staleQueue :: Sim where
  "staleQueue =
     (case processTimeStep 0 0 10 oneBusyOneWaiting oneBusyOneWaiting of
        Inr s' \<Rightarrow> s' | Inl (e, p) \<Rightarrow> p)"

definition staleQueueTwo :: Sim where
  "staleQueueTwo = addCustomerWithName ''D'' staleQueue staleQueue"

text \<open>A served customer who arrived at 0 and sat down at 9/8.\<close>

definition waitedNineEighths :: Customer where
  "waitedNineEighths =
     \<lparr>c_id = 1, c_name = ''A'', c_state = SERVED, timeArrived = 0, timeServed = Some (9 / 8),
      timeLeft = Some (89 / 8), servedBy = Some 1, waitingPosition = None,
      c_serviceEndTime = Some (89 / 8)\<rparr>"

section \<open>Evaluating the runs\<close>

lemmas handler_defs = initializeSimulation_def initialState_def newBarber_def
  addCustomerWithName_def startIfNotRunning_def Let_def processTimeStep_def finishCustomer_def
  addRandomCustomer_def randomNames_def updateBarberCount_def updateChairCount_def
  clampCount_def renumber_def enumerate_eq_zip

lemma numberToString_digit: "n < 10 \<Longrightarrow> numberToString n = [''0123456789'' ! n]"
  by (simp add: numberToString.simps[of n])

lemma mounted_eq:
  "mounted =
     \<lparr>numBarbers = 1, numChairs = 3, serviceTime = 10, arrivalRate = 3,
      isRunning = False, isPaused = False, currentTime = 0, nextCustomerId = 1,
      barbers = [\<lparr>b_id = 1, b_state = SLEEPING, servingCustomerId = None,
                  totalCustomersServed = 0, currentServiceStartTime = None,
                  b_serviceEndTime = None\<rparr>],
      waitingCustomers = [], currentCustomers = [], servedCustomers = [],
      turnedAwayCustomers = []\<rparr>"
  by (simp add: mounted_def handler_defs)

lemma oneBusy_eq:
  "oneBusy =
     \<lparr>numBarbers = 1, numChairs = 3, serviceTime = 10, arrivalRate = 3,
      isRunning = True, isPaused = False, currentTime = 0, nextCustomerId = 2,
      barbers = [\<lparr>b_id = 1, b_state = WORKING, servingCustomerId = Some 1,
                  totalCustomersServed = 0, currentServiceStartTime = Some 0,
                  b_serviceEndTime = Some 10\<rparr>],
      waitingCustomers = [],
      currentCustomers = [\<lparr>c_id = 1, c_name = ''A'', c_state = GETTING_HAIRCUT,
          timeArrived = 0, timeServed = Some 0, timeLeft = None, servedBy = Some 1,
          waitingPosition = None, c_serviceEndTime = Some 10\<rparr>],
      servedCustomers = [], turnedAwayCustomers = []\<rparr>"
  by (simp add: oneBusy_def mounted_eq handler_defs)

lemma oneBusyOneWaiting_eq:
  "oneBusyOneWaiting =
     \<lparr>numBarbers = 1, numChairs = 3, serviceTime = 10, arrivalRate = 3,
      isRunning = True, isPaused = False, currentTime = 0, nextCustomerId = 3,
      barbers = [\<lparr>b_id = 1, b_state = WORKING, servingCustomerId = Some 1,
                  totalCustomersServed = 0, currentServiceStartTime = Some 0,
                  b_serviceEndTime = Some 10\<rparr>],
      waitingCustomers = [\<lparr>c_id = 2, c_name = ''B'', c_state = WAITING, timeArrived = 0,
          timeServed = None, timeLeft = None, servedBy = None, waitingPosition = Some 0,
          c_serviceEndTime = None\<rparr>],
      currentCustomers = [\<lparr>c_id = 1, c_name = ''A'', c_state = GETTING_HAIRCUT,
          timeArrived = 0, timeServed = Some 0, timeLeft = None, servedBy = Some 1,
          waitingPosition = None, c_serviceEndTime = Some 10\<rparr>],
      servedCustomers = [], turnedAwayCustomers = []\<rparr>"
  by (simp add: oneBusyOneWaiting_def oneBusy_eq handler_defs)

lemma oneBusyTwoWaiting_eq:
  "oneBusyTwoWaiting =
     \<lparr>numBarbers = 1, numChairs = 3, serviceTime = 10, arrivalRate = 3,
      isRunning = True, isPaused = False, currentTime = 0, nextCustomerId = 4,
      barbers = [\<lparr>b_id = 1, b_state = WORKING, servingCustomerId = Some 1,
                  totalCustomersServed = 0, currentServiceStartTime = Some 0,
                  b_serviceEndTime = Some 10\<rparr>],
      waitingCustomers = [\<lparr>c_id = 2, c_name = ''B'', c_state = WAITING, timeArrived = 0,
          timeServed = None, timeLeft = None, servedBy = None, waitingPosition = Some 0,
          c_serviceEndTime = None\<rparr>,
        \<lparr>c_id = 3, c_name = ''C'', c_state = WAITING, timeArrived = 0,
          timeServed = None, timeLeft = None, servedBy = None, waitingPosition = Some 1,
          c_serviceEndTime = None\<rparr>],
      currentCustomers = [\<lparr>c_id = 1, c_name = ''A'', c_state = GETTING_HAIRCUT,
          timeArrived = 0, timeServed = Some 0, timeLeft = None, servedBy = Some 1,
          waitingPosition = None, c_serviceEndTime = Some 10\<rparr>],
      servedCustomers = [], turnedAwayCustomers = []\<rparr>"
  by (simp add: oneBusyTwoWaiting_def oneBusyOneWaiting_eq handler_defs)

lemma twoBarbers_eq:
  "twoBarbers =
     \<lparr>numBarbers = 2, numChairs = 3, serviceTime = 10, arrivalRate = 3,
      isRunning = False, isPaused = False, currentTime = 0, nextCustomerId = 1,
      barbers = [\<lparr>b_id = 1, b_state = SLEEPING, servingCustomerId = None,
                  totalCustomersServed = 0, currentServiceStartTime = None,
                  b_serviceEndTime = None\<rparr>,
                 \<lparr>b_id = 2, b_state = SLEEPING, servingCustomerId = None,
                  totalCustomersServed = 0, currentServiceStartTime = None,
                  b_serviceEndTime = None\<rparr>],
      waitingCustomers = [], currentCustomers = [], servedCustomers = [],
      turnedAwayCustomers = []\<rparr>"
  by (simp add: twoBarbers_def mounted_eq handler_defs)

lemma twoBarbersOneBusy_eq:
  "twoBarbersOneBusy =
     \<lparr>numBarbers = 2, numChairs = 3, serviceTime = 10, arrivalRate = 3,
      isRunning = True, isPaused = False, currentTime = 0, nextCustomerId = 2,
      barbers = [\<lparr>b_id = 1, b_state = WORKING, servingCustomerId = Some 1,
                  totalCustomersServed = 0, currentServiceStartTime = Some 0,
                  b_serviceEndTime = Some 10\<rparr>,
                 \<lparr>b_id = 2, b_state = SLEEPING, servingCustomerId = None,
                  totalCustomersServed = 0, currentServiceStartTime = None,
                  b_serviceEndTime = None\<rparr>],
      waitingCustomers = [],
      currentCustomers = [\<lparr>c_id = 1, c_name = ''A'', c_state = GETTING_HAIRCUT,
          timeArrived = 0, timeServed = Some 0, timeLeft = None, servedBy = Some 1,
          waitingPosition = None, c_serviceEndTime = Some 10\<rparr>],
      servedCustomers = [], turnedAwayCustomers = []\<rparr>"
  by (simp add: twoBarbersOneBusy_def twoBarbers_eq handler_defs)

lemma twoBusy_eq:
  "twoBusy =
     \<lparr>numBarbers = 2, numChairs = 3, serviceTime = 10, arrivalRate = 3,
      isRunning = True, isPaused = False, currentTime = 0, nextCustomerId = 3,
      barbers = [\<lparr>b_id = 1, b_state = WORKING, servingCustomerId = Some 1,
                  totalCustomersServed = 0, currentServiceStartTime = Some 0,
                  b_serviceEndTime = Some 10\<rparr>,
                 \<lparr>b_id = 2, b_state = WORKING, servingCustomerId = Some 2,
                  totalCustomersServed = 0, currentServiceStartTime = Some 0,
                  b_serviceEndTime = Some 10\<rparr>],
      waitingCustomers = [],
      currentCustomers = [\<lparr>c_id = 1, c_name = ''A'', c_state = GETTING_HAIRCUT,
          timeArrived = 0, timeServed = Some 0, timeLeft = None, servedBy = Some 1,
          waitingPosition = None, c_serviceEndTime = Some 10\<rparr>,
        \<lparr>c_id = 2, c_name = ''B'', c_state = GETTING_HAIRCUT,
          timeArrived = 0, timeServed = Some 0, timeLeft = None, servedBy = Some 2,
          waitingPosition = None, c_serviceEndTime = Some 10\<rparr>],
      servedCustomers = [], turnedAwayCustomers = []\<rparr>"
  by (simp add: twoBusy_def twoBarbersOneBusy_eq handler_defs)

lemma twoBusyOneWaiting_eq:
  "twoBusyOneWaiting =
     \<lparr>numBarbers = 2, numChairs = 3, serviceTime = 10, arrivalRate = 3,
      isRunning = True, isPaused = False, currentTime = 0, nextCustomerId = 4,
      barbers = [\<lparr>b_id = 1, b_state = WORKING, servingCustomerId = Some 1,
                  totalCustomersServed = 0, currentServiceStartTime = Some 0,
                  b_serviceEndTime = Some 10\<rparr>,
                 \<lparr>b_id = 2, b_state = WORKING, servingCustomerId = Some 2,
                  totalCustomersServed = 0, currentServiceStartTime = Some 0,
                  b_serviceEndTime = Some 10\<rparr>],
      waitingCustomers = [\<lparr>c_id = 3, c_name = ''C'', c_state = WAITING, timeArrived = 0,
          timeServed = None, timeLeft = None, servedBy = None, waitingPosition = Some 0,
          c_serviceEndTime = None\<rparr>],
      currentCustomers = [\<lparr>c_id = 1, c_name = ''A'', c_state = GETTING_HAIRCUT,
          timeArrived = 0, timeServed = Some 0, timeLeft = None, servedBy = Some 1,
          waitingPosition = None, c_serviceEndTime = Some 10\<rparr>,
        \<lparr>c_id = 2, c_name = ''B'', c_state = GETTING_HAIRCUT,
          timeArrived = 0, timeServed = Some 0, timeLeft = None, servedBy = Some 2,
          waitingPosition = None, c_serviceEndTime = Some 10\<rparr>],
      servedCustomers = [], turnedAwayCustomers = []\<rparr>"
  by (simp add: twoBusyOneWaiting_def twoBusy_eq handler_defs)

lemma reachable_mounted: "reachable mounted"
  unfolding mounted_def by (rule reach_init)

lemma reachable_oneBusy: "reachable oneBusy"
  unfolding oneBusy_def by (rule reach_add [OF reachable_mounted])

lemma reachable_oneBusyOneWaiting: "reachable oneBusyOneWaiting"
  unfolding oneBusyOneWaiting_def by (rule reach_add [OF reachable_oneBusy])

lemma reachable_oneBusyTwoWaiting: "reachable oneBusyTwoWaiting"
  unfolding oneBusyTwoWaiting_def by (rule reach_add [OF reachable_oneBusyOneWaiting])

lemma reachable_twoBarbers: "reachable twoBarbers"
  unfolding twoBarbers_def by (rule reach_barbers [OF reachable_mounted])

lemma reachable_twoBusyOneWaiting: "reachable twoBusyOneWaiting"
  unfolding twoBusyOneWaiting_def twoBusy_def twoBarbersOneBusy_def
  by (intro reach_add reachable_twoBarbers)

lemma reachable_queueAndSleeper: "reachable queueAndSleeper"
  unfolding queueAndSleeper_def by (rule reach_barbers [OF reachable_oneBusyOneWaiting])

lemma queueAndSleeper_eq:
  "queueAndSleeper =
     \<lparr>numBarbers = 2, numChairs = 3, serviceTime = 10, arrivalRate = 3,
      isRunning = True, isPaused = False, currentTime = 0, nextCustomerId = 3,
      barbers = [\<lparr>b_id = 1, b_state = WORKING, servingCustomerId = Some 1,
                  totalCustomersServed = 0, currentServiceStartTime = Some 0,
                  b_serviceEndTime = Some 10\<rparr>,
                 \<lparr>b_id = 2, b_state = SLEEPING, servingCustomerId = None,
                  totalCustomersServed = 0, currentServiceStartTime = None,
                  b_serviceEndTime = None\<rparr>],
      waitingCustomers = [\<lparr>c_id = 2, c_name = ''B'', c_state = WAITING, timeArrived = 0,
          timeServed = None, timeLeft = None, servedBy = None, waitingPosition = Some 0,
          c_serviceEndTime = None\<rparr>],
      currentCustomers = [\<lparr>c_id = 1, c_name = ''A'', c_state = GETTING_HAIRCUT,
          timeArrived = 0, timeServed = Some 0, timeLeft = None, servedBy = Some 1,
          waitingPosition = None, c_serviceEndTime = Some 10\<rparr>],
      servedCustomers = [], turnedAwayCustomers = []\<rparr>"
  by (simp add: queueAndSleeper_def oneBusyOneWaiting_eq handler_defs)

lemma threeBarbersTwoBusy_eq:
  "threeBarbersTwoBusy =
     \<lparr>numBarbers = 3, numChairs = 3, serviceTime = 10, arrivalRate = 3,
      isRunning = True, isPaused = False, currentTime = 0, nextCustomerId = 3,
      barbers = [\<lparr>b_id = 1, b_state = WORKING, servingCustomerId = Some 1,
                  totalCustomersServed = 0, currentServiceStartTime = Some 0,
                  b_serviceEndTime = Some 10\<rparr>,
                 \<lparr>b_id = 2, b_state = WORKING, servingCustomerId = Some 2,
                  totalCustomersServed = 0, currentServiceStartTime = Some 0,
                  b_serviceEndTime = Some 10\<rparr>,
                 \<lparr>b_id = 3, b_state = SLEEPING, servingCustomerId = None,
                  totalCustomersServed = 0, currentServiceStartTime = None,
                  b_serviceEndTime = None\<rparr>],
      waitingCustomers = [],
      currentCustomers = [\<lparr>c_id = 1, c_name = ''A'', c_state = GETTING_HAIRCUT,
          timeArrived = 0, timeServed = Some 0, timeLeft = None, servedBy = Some 1,
          waitingPosition = None, c_serviceEndTime = Some 10\<rparr>,
        \<lparr>c_id = 2, c_name = ''B'', c_state = GETTING_HAIRCUT,
          timeArrived = 0, timeServed = Some 0, timeLeft = None, servedBy = Some 2,
          waitingPosition = None, c_serviceEndTime = Some 10\<rparr>],
      servedCustomers = [], turnedAwayCustomers = []\<rparr>"
  by (simp add: threeBarbersTwoBusy_def mounted_eq handler_defs upt_rec)

lemma reachable_threeBarbersTwoBusy: "reachable threeBarbersTwoBusy"
  unfolding threeBarbersTwoBusy_def Let_def
  by (intro reach_add reach_barbers reachable_mounted)

text \<open>Both haircuts end at 10; no customer arrives (\<open>u = 1/2\<close> is not below \<open>3/60 * 10\<close>).\<close>

lemma step_twoBusyOneWaiting:
  "processTimeStep (1 / 2) 0 10 twoBusyOneWaiting twoBusyOneWaiting =
     Inr \<lparr>numBarbers = 2, numChairs = 3, serviceTime = 10, arrivalRate = 3,
      isRunning = True, isPaused = False, currentTime = 10, nextCustomerId = 4,
      barbers = [\<lparr>b_id = 1, b_state = WORKING, servingCustomerId = Some 3,
                  totalCustomersServed = 1, currentServiceStartTime = Some 10,
                  b_serviceEndTime = Some 20\<rparr>,
                 \<lparr>b_id = 2, b_state = WORKING, servingCustomerId = Some 3,
                  totalCustomersServed = 1, currentServiceStartTime = Some 10,
                  b_serviceEndTime = Some 20\<rparr>],
      waitingCustomers = [],
      currentCustomers = [\<lparr>c_id = 3, c_name = ''C'', c_state = GETTING_HAIRCUT,
          timeArrived = 0, timeServed = Some 10, timeLeft = None, servedBy = Some 1,
          waitingPosition = None, c_serviceEndTime = Some 20\<rparr>,
        \<lparr>c_id = 3, c_name = ''C'', c_state = GETTING_HAIRCUT,
          timeArrived = 0, timeServed = Some 10, timeLeft = None, servedBy = Some 2,
          waitingPosition = None, c_serviceEndTime = Some 20\<rparr>],
      servedCustomers = [\<lparr>c_id = 1, c_name = ''A'', c_state = SERVED, timeArrived = 0,
          timeServed = Some 0, timeLeft = Some 10, servedBy = Some 1,
          waitingPosition = None, c_serviceEndTime = Some 10\<rparr>,
        \<lparr>c_id = 2, c_name = ''B'', c_state = SERVED, timeArrived = 0,
          timeServed = Some 0, timeLeft = Some 10, servedBy = Some 2,
          waitingPosition = None, c_serviceEndTime = Some 10\<rparr>],
      turnedAwayCustomers = []\<rparr>"
  by (simp add: twoBusyOneWaiting_eq handler_defs)

text \<open>The haircut of A ends at 10 and a customer arrives in the same step (\<open>u = 0\<close>).\<close>

lemma step_oneBusy:
  "processTimeStep 0 0 10 oneBusy oneBusy =
     Inr \<lparr>numBarbers = 1, numChairs = 3, serviceTime = 10, arrivalRate = 3,
      isRunning = True, isPaused = False, currentTime = 10, nextCustomerId = 3,
      barbers = [\<lparr>b_id = 1, b_state = SLEEPING, servingCustomerId = None,
                  totalCustomersServed = 1, currentServiceStartTime = None,
                  b_serviceEndTime = None\<rparr>],
      waitingCustomers = [\<lparr>c_id = 2, c_name = ''Alex 2'', c_state = WAITING,
          timeArrived = 0, timeServed = None, timeLeft = None, servedBy = None,
          waitingPosition = Some 0, c_serviceEndTime = None\<rparr>],
      currentCustomers = [],
      servedCustomers = [\<lparr>c_id = 1, c_name = ''A'', c_state = SERVED, timeArrived = 0,
          timeServed = Some 0, timeLeft = Some 10, servedBy = Some 1,
          waitingPosition = None, c_serviceEndTime = Some 10\<rparr>],
      turnedAwayCustomers = []\<rparr>"
  by (simp add: oneBusy_eq handler_defs numberToString_digit)

lemma step_oneBusyOneWaiting:
  "processTimeStep 0 0 10 oneBusyOneWaiting oneBusyOneWaiting =
     Inr \<lparr>numBarbers = 1, numChairs = 3, serviceTime = 10, arrivalRate = 3,
      isRunning = True, isPaused = False, currentTime = 10, nextCustomerId = 4,
      barbers = [\<lparr>b_id = 1, b_state = WORKING, servingCustomerId = Some 2,
                  totalCustomersServed = 1, currentServiceStartTime = Some 10,
                  b_serviceEndTime = Some 20\<rparr>],
      waitingCustomers = [\<lparr>c_id = 3, c_name = ''Alex 3'', c_state = WAITING,
          timeArrived = 0, timeServed = None, timeLeft = None, servedBy = None,
          waitingPosition = Some 1, c_serviceEndTime = None\<rparr>],
      currentCustomers = [\<lparr>c_id = 2, c_name = ''B'', c_state = GETTING_HAIRCUT,
          timeArrived = 0, timeServed = Some 10, timeLeft = None, servedBy = Some 1,
          waitingPosition = None, c_serviceEndTime = Some 20\<rparr>],
      servedCustomers = [\<lparr>c_id = 1, c_name = ''A'', c_state = SERVED, timeArrived = 0,
          timeServed = Some 0, timeLeft = Some 10, servedBy = Some 1,
          waitingPosition = None, c_serviceEndTime = Some 10\<rparr>],
      turnedAwayCustomers = []\<rparr>"
  by (simp add: oneBusyOneWaiting_eq handler_defs numberToString_digit)

lemma step_oneBusyTwoWaiting:
  "processTimeStep 0 0 10 oneBusyTwoWaiting oneBusyTwoWaiting =
     Inr \<lparr>numBarbers = 1, numChairs = 3, serviceTime = 10, arrivalRate = 3,
      isRunning = True, isPaused = False, currentTime = 10, nextCustomerId = 5,
      barbers = [\<lparr>b_id = 1, b_state = WORKING, servingCustomerId = Some 2,
                  totalCustomersServed = 1, currentServiceStartTime = Some 10,
                  b_serviceEndTime = Some 20\<rparr>],
      waitingCustomers = [\<lparr>c_id = 3, c_name = ''C'', c_state = WAITING, timeArrived = 0,
          timeServed = None, timeLeft = None, servedBy = None, waitingPosition = Some 0,
          c_serviceEndTime = None\<rparr>,
        \<lparr>c_id = 4, c_name = ''Alex 4'', c_state = WAITING,
          timeArrived = 0, timeServed = None, timeLeft = None, servedBy = None,
          waitingPosition = Some 2, c_serviceEndTime = None\<rparr>],
      currentCustomers = [\<lparr>c_id = 2, c_name = ''B'', c_state = GETTING_HAIRCUT,
          timeArrived = 0, timeServed = Some 10, timeLeft = None, servedBy = Some 1,
          waitingPosition = None, c_serviceEndTime = Some 20\<rparr>],
      servedCustomers = [\<lparr>c_id = 1, c_name = ''A'', c_state = SERVED, timeArrived = 0,
          timeServed = Some 0, timeLeft = Some 10, servedBy = Some 1,
          waitingPosition = None, c_serviceEndTime = Some 10\<rparr>],
      turnedAwayCustomers = []\<rparr>"
  by (simp add: oneBusyTwoWaiting_eq handler_defs numberToString_digit)

lemma step_twoBarbersOneBusy_late:
  "processTimeStep 0 0 20 twoBarbersOneBusy twoBarbersOneBusy =
     Inr \<lparr>numBarbers = 2, numChairs = 3, serviceTime = 10, arrivalRate = 3,
      isRunning = True, isPaused = False, currentTime = 20, nextCustomerId = 3,
      barbers = [\<lparr>b_id = 1, b_state = WORKING, servingCustomerId = Some 1,
                  totalCustomersServed = 0, currentServiceStartTime = Some 0,
                  b_serviceEndTime = Some 10\<rparr>,
                 \<lparr>b_id = 2, b_state = WORKING, servingCustomerId = Some 2,
                  totalCustomersServed = 0, currentServiceStartTime = Some 0,
                  b_serviceEndTime = Some 10\<rparr>],
      waitingCustomers = [],
      currentCustomers = [\<lparr>c_id = 2, c_name = ''Alex 2'', c_state = GETTING_HAIRCUT,
          timeArrived = 0, timeServed = Some 0, timeLeft = None, servedBy = Some 2,
          waitingPosition = None, c_serviceEndTime = Some 10\<rparr>],
      servedCustomers = [\<lparr>c_id = 1, c_name = ''A'', c_state = SERVED, timeArrived = 0,
          timeServed = Some 0, timeLeft = Some 10, servedBy = Some 1,
          waitingPosition = None, c_serviceEndTime = Some 10\<rparr>],
      turnedAwayCustomers = []\<rparr>"
  by (simp add: twoBarbersOneBusy_eq handler_defs numberToString_digit)

lemma lateArrival_eq:
  "lateArrival =
     \<lparr>numBarbers = 2, numChairs = 3, serviceTime = 10, arrivalRate = 3,
      isRunning = True, isPaused = False, currentTime = 20, nextCustomerId = 3,
      barbers = [\<lparr>b_id = 1, b_state = WORKING, servingCustomerId = Some 1,
                  totalCustomersServed = 0, currentServiceStartTime = Some 0,
                  b_serviceEndTime = Some 10\<rparr>,
                 \<lparr>b_id = 2, b_state = WORKING, servingCustomerId = Some 2,
                  totalCustomersServed = 0, currentServiceStartTime = Some 0,
                  b_serviceEndTime = Some 10\<rparr>],
      waitingCustomers = [],
      currentCustomers = [\<lparr>c_id = 2, c_name = ''Alex 2'', c_state = GETTING_HAIRCUT,
          timeArrived = 0, timeServed = Some 0, timeLeft = None, servedBy = Some 2,
          waitingPosition = None, c_serviceEndTime = Some 10\<rparr>],
      servedCustomers = [\<lparr>c_id = 1, c_name = ''A'', c_state = SERVED, timeArrived = 0,
          timeServed = Some 0, timeLeft = Some 10, servedBy = Some 1,
          waitingPosition = None, c_serviceEndTime = Some 10\<rparr>],
      turnedAwayCustomers = []\<rparr>"
  by (simp add: lateArrival_def step_twoBarbersOneBusy_late)

lemma reachable_twoBarbersOneBusy: "reachable twoBarbersOneBusy"
  unfolding twoBarbersOneBusy_def by (rule reach_add [OF reachable_twoBarbers])

lemma reachable_lateArrival: "reachable lateArrival"
proof -
  have "reachable (projr (processTimeStep 0 0 20 twoBarbersOneBusy twoBarbersOneBusy))"
    by (rule reach_step [OF reachable_twoBarbersOneBusy, where timeStep = 20 and u = 0 and v = 0])
       (simp_all add: step_twoBarbersOneBusy_late)
  then show ?thesis
    by (simp add: lateArrival_def step_twoBarbersOneBusy_late)
qed

lemma staleQueue_eq:
  "staleQueue =
     \<lparr>numBarbers = 1, numChairs = 3, serviceTime = 10, arrivalRate = 3,
      isRunning = True, isPaused = False, currentTime = 10, nextCustomerId = 4,
      barbers = [\<lparr>b_id = 1, b_state = WORKING, servingCustomerId = Some 2,
                  totalCustomersServed = 1, currentServiceStartTime = Some 10,
                  b_serviceEndTime = Some 20\<rparr>],
      waitingCustomers = [\<lparr>c_id = 3, c_name = ''Alex 3'', c_state = WAITING,
          timeArrived = 0, timeServed = None, timeLeft = None, servedBy = None,
          waitingPosition = Some 1, c_serviceEndTime = None\<rparr>],
      currentCustomers = [\<lparr>c_id = 2, c_name = ''B'', c_state = GETTING_HAIRCUT,
          timeArrived = 0, timeServed = Some 10, timeLeft = None, servedBy = Some 1,
          waitingPosition = None, c_serviceEndTime = Some 20\<rparr>],
      servedCustomers = [\<lparr>c_id = 1, c_name = ''A'', c_state = SERVED, timeArrived = 0,
          timeServed = Some 0, timeLeft = Some 10, servedBy = Some 1,
          waitingPosition = None, c_serviceEndTime = Some 10\<rparr>],
      turnedAwayCustomers = []\<rparr>"
  by (simp add: staleQueue_def step_oneBusyOneWaiting)

lemma reachable_staleQueue: "reachable staleQueue"
proof -
  have "reachable (projr (processTimeStep 0 0 10 oneBusyOneWaiting oneBusyOneWaiting))"
    by (rule reach_step [OF reachable_oneBusyOneWaiting, where timeStep = 10 and u = 0 and v = 0])
       (simp_all add: step_oneBusyOneWaiting)
  then show ?thesis
    by (simp add: staleQueue_def step_oneBusyOneWaiting)
qed

lemma staleQueueTwo_eq:
  "staleQueueTwo =
     \<lparr>numBarbers = 1, numChairs = 3, serviceTime = 10, arrivalRate = 3,
      isRunning = True, isPaused = False, currentTime = 10, nextCustomerId = 5,
      barbers = [\<lparr>b_id = 1, b_state = WORKING, servingCustomerId = Some 2,
                  totalCustomersServed = 1, currentServiceStartTime = Some 10,
                  b_serviceEndTime = Some 20\<rparr>],
      waitingCustomers = [\<lparr>c_id = 3, c_name = ''Alex 3'', c_state = WAITING,
          timeArrived = 0, timeServed = None, timeLeft = None, servedBy = None,
          waitingPosition = Some 1, c_serviceEndTime = None\<rparr>,
        \<lparr>c_id = 4, c_name = ''D'', c_state = WAITING,
          timeArrived = 10, timeServed = None, timeLeft = None, servedBy = None,
          waitingPosition = Some 1, c_serviceEndTime = None\<rparr>],
      currentCustomers = [\<lparr>c_id = 2, c_name = ''B'', c_state = GETTING_HAIRCUT,
          timeArrived = 0, timeServed = Some 10, timeLeft = None, servedBy = Some 1,
          waitingPosition = None, c_serviceEndTime = Some 20\<rparr>],
      servedCustomers = [\<lparr>c_id = 1, c_name = ''A'', c_state = SERVED, timeArrived = 0,
          timeServed = Some 0, timeLeft = Some 10, servedBy = Some 1,
          waitingPosition = None, c_serviceEndTime = Some 10\<rparr>],
      turnedAwayCustomers = []\<rparr>"
  by (simp add: staleQueueTwo_def staleQueue_eq handler_defs)

lemma reachable_staleQueueTwo: "reachable staleQueueTwo"
  unfolding staleQueueTwo_def by (rule reach_add [OF reachable_staleQueue])

section \<open>Completions within one step\<close>

text \<open>
  A step in which exactly one customer finishes and nobody arrives does what the
  specification describes: the customer is appended to the served list with
  \<open>timeLeft\<close> its exact end time and leaves \<open>currentCustomers\<close>, its barber's counter
  goes up by one, and the barber takes the head of the queue or sleeps.
\<close>

lemma finishCustomer_skip:
  assumes "\<not> finishes newTime c"
  shows "finishCustomer s newTime c lp = Inr lp"
  using assms
  by (cases lp) (auto simp: finishCustomer_def finishes_def split: option.splits)

lemma forEach_finishCustomer_skip:
  assumes "\<forall>c \<in> set cs. \<not> finishes newTime c"
  shows "forEach (finishCustomer s newTime) cs lp = Inr lp"
  using assms by (induction cs) (simp_all add: finishCustomer_skip)

lemma forEach_append:
  "forEach f (xs @ ys) acc = (case forEach f xs acc of Inl e \<Rightarrow> Inl e | Inr acc' \<Rightarrow> forEach f ys acc')"
  by (induction xs arbitrary: acc) (auto split: sum.splits)

lemma finishCustomer_finishes:
  assumes "finishes newTime c" and "c_serviceEndTime c = Some e"
    and "servedBy c = Some (Suc i)" and "i < length (updatedBarbers l)"
  shows "finishCustomer s newTime c (l, p) =
           Inr (l\<lparr>finishedCustomers := finishedCustomers l @ [c\<lparr>c_state := SERVED, timeLeft := Some e\<rparr>],
                  customersToRemove := customersToRemove l @ [c_id c],
                  updatedBarbers := (updatedBarbers l)[i := freedBarber s newTime (updatedBarbers l ! i)],
                  updatedCurrentCustomers := updatedCurrentCustomers l @ promoted s newTime i\<rparr>,
                p\<lparr>waitingCustomers :=
                    (if waitingCustomers s = [] then waitingCustomers p else queueAfterPromotion s)\<rparr>)"
  using assms
  by (auto simp: finishCustomer_def finishes_def freedBarber_def promoted_def
        queueAfterPromotion_def Let_def split: list.splits)

lemma forEach_single_completion:
  assumes fin: "finishes newTime c" "c_serviceEndTime c = Some e"
    and others: "\<forall>x \<in> set before \<union> set after. \<not> finishes newTime x"
    and barber: "servedBy c = Some (Suc i)" "i < length (updatedBarbers l)"
  shows "forEach (finishCustomer s newTime) (before @ c # after) (l, p) =
           Inr (l\<lparr>finishedCustomers := finishedCustomers l @ [c\<lparr>c_state := SERVED, timeLeft := Some e\<rparr>],
                  customersToRemove := customersToRemove l @ [c_id c],
                  updatedBarbers := (updatedBarbers l)[i := freedBarber s newTime (updatedBarbers l ! i)],
                  updatedCurrentCustomers := updatedCurrentCustomers l @ promoted s newTime i\<rparr>,
                p\<lparr>waitingCustomers :=
                    (if waitingCustomers s = [] then waitingCustomers p else queueAfterPromotion s)\<rparr>)"
proof -
  have skip_before: "forEach (finishCustomer s newTime) before (l, p) = Inr (l, p)"
    using others by (intro forEach_finishCustomer_skip) simp
  have skip_after: "forEach (finishCustomer s newTime) after lp = Inr lp" for lp
    using others by (intro forEach_finishCustomer_skip) simp
  show ?thesis
    by (simp add: forEach_append skip_before skip_after
          finishCustomer_finishes [OF fin barber])
qed

lemma processTimeStep_single_completion:
  assumes run: "isRunning s" "\<not> isPaused s"
    and quiet: "\<not> u < (arrivalRate s / 60) * timeStep"
    and cur: "currentCustomers s = before @ c # after"
    and fin: "finishes (currentTime s + timeStep) c" "c_serviceEndTime c = Some e"
    and others: "\<forall>x \<in> set before \<union> set after. \<not> finishes (currentTime s + timeStep) x"
    and ids: "\<forall>x \<in> set before \<union> set after \<union> set (waitingCustomers s). c_id x \<noteq> c_id c"
    and barber: "servedBy c = Some (Suc i)" "i < length (barbers s)"
  shows "processTimeStep u v timeStep s s =
           Inr (s\<lparr>currentTime := currentTime s + timeStep,
                  barbers := (barbers s)[i := freedBarber s (currentTime s + timeStep) (barbers s ! i)],
                  currentCustomers := before @ after @ promoted s (currentTime s + timeStep) i,
                  servedCustomers := servedCustomers s @ [c\<lparr>c_state := SERVED, timeLeft := Some e\<rparr>],
                  waitingCustomers := queueAfterPromotion s\<rparr>)"
proof -
  let ?t = "currentTime s + timeStep"
  let ?l0 = "\<lparr>updatedBarbers = barbers s, finishedCustomers = [],
              updatedCurrentCustomers = before @ c # after, customersToRemove = []\<rparr>"
  let ?p0 = "s\<lparr>currentTime := ?t\<rparr>"
  have loop: "forEach (finishCustomer s ?t) (before @ c # after) (?l0, ?p0) =
           Inr (?l0\<lparr>finishedCustomers := [c\<lparr>c_state := SERVED, timeLeft := Some e\<rparr>],
                  customersToRemove := [c_id c],
                  updatedBarbers := (barbers s)[i := freedBarber s ?t (barbers s ! i)],
                  updatedCurrentCustomers := (before @ c # after) @ promoted s ?t i\<rparr>,
                ?p0\<lparr>waitingCustomers :=
                    (if waitingCustomers s = [] then waitingCustomers s else queueAfterPromotion s)\<rparr>)"
    using forEach_single_completion [OF fin others barber(1), of ?l0 s ?p0] barber(2) by simp
  have promoted_ids: "\<forall>x \<in> set (promoted s ?t i). c_id x \<noteq> c_id c"
  proof (cases "waitingCustomers s")
    case Nil
    then show ?thesis by (simp add: promoted_def)
  next
    case (Cons nextCustomer rest)
    with ids have "c_id nextCustomer \<noteq> c_id c" by simp
    with Cons show ?thesis by (simp add: promoted_def)
  qed
  have remaining: "filter (\<lambda>customer. c_id customer \<noteq> c_id c) before = before"
     "filter (\<lambda>customer. c_id customer \<noteq> c_id c) after = after"
     "filter (\<lambda>customer. c_id customer \<noteq> c_id c) (promoted s ?t i) = promoted s ?t i"
    using ids promoted_ids by (simp_all add: filter_id_conv)
  have queue: "(if waitingCustomers s = [] then waitingCustomers s else queueAfterPromotion s) =
               queueAfterPromotion s"
    by (simp add: queueAfterPromotion_def)
  show ?thesis
    using run quiet
    by (simp add: processTimeStep_def Let_def cur loop remaining queue)
qed

text \<open>
  Claim C1. In a step, a finished customer is marked served with its exact end time, moved
  to the served list, and its barber's counter goes up by one; the freed barber then takes
  the head of the waiting queue, or sleeps when the queue is empty. The code reads the
  render's queue for every completion of the step: with barbers 1 and 2 finishing A and B
  in the same step and C alone in the queue, barber 1 takes C and the queue is empty, yet
  barber 2 does not sleep: it is \<open>WORKING\<close> on customer 3 as well.
\<close>

theorem second_freed_barber_takes_dequeued_customer:
  "map c_id (waitingCustomers twoBusyOneWaiting) = [3] \<and>
   map servingCustomerId (barbers twoBusyOneWaiting) = [Some 1, Some 2] \<and>
   (case processTimeStep (1 / 2) 0 10 twoBusyOneWaiting twoBusyOneWaiting of
      Inl e \<Rightarrow> False
    | Inr s' \<Rightarrow>
        map c_id (servedCustomers s') = [1, 2] \<and>
        map totalCustomersServed (barbers s') = [1, 1] \<and>
        waitingCustomers s' = [] \<and>
        map b_state (barbers s') = [WORKING, WORKING] \<and>
        map servingCustomerId (barbers s') = [Some 3, Some 3])"
  by (simp add: step_twoBusyOneWaiting) (simp add: twoBusyOneWaiting_eq)

text \<open>The step above is taken by a running simulation and returns.\<close>

theorem second_freed_barber_takes_dequeued_customer_witness:
  "isRunning twoBusyOneWaiting \<and> \<not> isPaused twoBusyOneWaiting \<and>
   (\<exists>s'. processTimeStep (1 / 2) 0 10 twoBusyOneWaiting twoBusyOneWaiting = Inr s' \<and>
         waitingCustomers s' = [] \<and> map b_state (barbers s') = [WORKING, WORKING])"
  using second_freed_barber_takes_dequeued_customer
  by (auto simp: twoBusyOneWaiting_eq split: sum.splits)

text \<open>
  Claim C3. Every created customer is in exactly one of the four collections, and no
  waiting customer is given to two barbers at once. The state reached by the step above
  holds customer 3 twice in \<open>currentCustomers\<close>, once for barber 1 and once for barber 2;
  the state before the step satisfied the property.
\<close>

theorem double_completion_duplicates_customer:
  "reachable twoBusyOneWaiting \<and> customersPartitioned twoBusyOneWaiting \<and>
   (case processTimeStep (1 / 2) 0 10 twoBusyOneWaiting twoBusyOneWaiting of
      Inl e \<Rightarrow> False
    | Inr s' \<Rightarrow>
        reachable s' \<and> \<not> customersPartitioned s' \<and>
        map c_id (currentCustomers s') = [3, 3] \<and>
        map servedBy (currentCustomers s') = [Some 1, Some 2])"
proof -
  have before: "customersPartitioned twoBusyOneWaiting"
    by (auto simp: customersPartitioned_def twoBusyOneWaiting_eq)
  have "reachable (projr (processTimeStep (1 / 2) 0 10 twoBusyOneWaiting twoBusyOneWaiting))"
    by (rule reach_step [OF reachable_twoBusyOneWaiting, where timeStep = 10 and u = "1 / 2" and v = 0])
       (simp_all add: step_twoBusyOneWaiting)
  then show ?thesis
    using before reachable_twoBusyOneWaiting
    by (simp add: step_twoBusyOneWaiting customersPartitioned_def)
qed

text \<open>The duplicating step is a step of a running simulation, and its result is reachable.\<close>

theorem double_completion_duplicates_customer_witness:
  "isRunning twoBusyOneWaiting \<and> \<not> isPaused twoBusyOneWaiting \<and>
   (\<exists>s'. processTimeStep (1 / 2) 0 10 twoBusyOneWaiting twoBusyOneWaiting = Inr s' \<and>
         reachable s' \<and> map c_id (currentCustomers s') = [3, 3])"
  using double_completion_duplicates_customer
  by (auto simp: twoBusyOneWaiting_eq split: sum.splits)

section \<open>The arrival of a step\<close>

text \<open>
  Claim C5. The completions of a step are resolved before its arrival is admitted, so
  the arrival can take the barber a completion has just freed. In the code the arrival
  reads the barbers of the render: when A finishes at 10 and a customer arrives in the
  same step, the barber ends the step \<open>SLEEPING\<close> with nobody in service, and the arrival
  sits in the queue, \<open>WAITING\<close>, with arrival time 0 at clock 10.
\<close>

theorem same_step_arrival_reads_stale_barbers:
  "reachable oneBusy \<and>
   (case processTimeStep 0 0 10 oneBusy oneBusy of
      Inl e \<Rightarrow> False
    | Inr s' \<Rightarrow>
        currentTime s' = 10 \<and>
        map c_id (servedCustomers s') = [1] \<and>
        map timeLeft (servedCustomers s') = [Some 10] \<and>
        map b_state (barbers s') = [SLEEPING] \<and>
        currentCustomers s' = [] \<and>
        map c_id (waitingCustomers s') = [2] \<and>
        map c_state (waitingCustomers s') = [WAITING] \<and>
        map timeArrived (waitingCustomers s') = [0])"
  using reachable_oneBusy by (simp add: step_oneBusy)

text \<open>The step is taken by a running simulation and returns.\<close>

theorem same_step_arrival_reads_stale_barbers_witness:
  "isRunning oneBusy \<and> \<not> isPaused oneBusy \<and>
   (\<exists>s'. processTimeStep 0 0 10 oneBusy oneBusy = Inr s' \<and>
         map b_state (barbers s') = [SLEEPING] \<and> map c_state (waitingCustomers s') = [WAITING])"
  using same_step_arrival_reads_stale_barbers
  by (auto simp: oneBusy_eq split: sum.splits)

subsection \<open>The queue and the chairs\<close>

text \<open>
  The queue never outgrows the chairs: an arrival is appended only when the render's
  queue, which is at least as long as the pending one, is shorter than the chairs.
\<close>

lemma finishCustomer_queue:
  assumes "finishCustomer s newTime c (l, p) = Inr (l', p')"
  shows "numChairs p' = numChairs p \<and>
         (waitingCustomers p' = waitingCustomers p \<or>
          length (waitingCustomers p') < length (waitingCustomers s))"
  using assms
  by (auto simp: finishCustomer_def Let_def split: option.splits if_splits list.splits)

lemma forEach_finishCustomer_queue:
  assumes "forEach (finishCustomer s newTime) cs (l, p) = Inr (l', p')"
  shows "numChairs p' = numChairs p \<and>
         (waitingCustomers p' = waitingCustomers p \<or>
          length (waitingCustomers p') < length (waitingCustomers s))"
  using assms
proof (induction cs arbitrary: l p)
  case Nil
  then show ?case by simp
next
  case (Cons c cs)
  from Cons.prems obtain l1 p1 where
    first: "finishCustomer s newTime c (l, p) = Inr (l1, p1)" and
    rest: "forEach (finishCustomer s newTime) cs (l1, p1) = Inr (l', p')"
    by (auto split: sum.splits)
  from finishCustomer_queue [OF first] Cons.IH [OF rest] show ?case by auto
qed

lemma addCustomerWithName_queue_fits:
  assumes "length (waitingCustomers p) \<le> length (waitingCustomers s)"
    and "length (waitingCustomers s) \<le> numChairs s" and "numChairs p = numChairs s"
  shows "length (waitingCustomers (addCustomerWithName name s p)) \<le>
         numChairs (addCustomerWithName name s p)"
  using assms
  by (auto simp: addCustomerWithName_def startIfNotRunning_def Let_def split: option.splits)

lemma processTimeStep_queue_fits:
  assumes "length (waitingCustomers s) \<le> numChairs s"
    and "processTimeStep u v timeStep s s = Inr s'"
  shows "length (waitingCustomers s') \<le> numChairs s'"
proof (cases "\<not> isRunning s \<or> isPaused s")
  case True
  with assms show ?thesis by (auto simp: processTimeStep_def)
next
  case False
  let ?start = "(\<lparr>updatedBarbers = barbers s, finishedCustomers = [],
                  updatedCurrentCustomers = currentCustomers s, customersToRemove = []\<rparr>,
                 s\<lparr>currentTime := currentTime s + timeStep\<rparr>)"
  from False assms(2) obtain l p2 where
    loop: "forEach (finishCustomer s (currentTime s + timeStep)) (currentCustomers s) ?start =
             Inr (l, p2)"
    by (auto simp: processTimeStep_def Let_def split: sum.splits)
  from forEach_finishCustomer_queue [OF loop]
  have chairs: "numChairs p2 = numChairs s"
    and queue: "length (waitingCustomers p2) \<le> length (waitingCustomers s)"
    by auto
  define p4 where "p4 = (let p3 = p2\<lparr>barbers := updatedBarbers l,
        currentCustomers := filter (\<lambda>customer. c_id customer \<notin> set (customersToRemove l))
                               (updatedCurrentCustomers l)\<rparr>
      in if length (finishedCustomers l) > 0
         then p3\<lparr>servedCustomers := servedCustomers p3 @ finishedCustomers l\<rparr> else p3)"
  have p4: "numChairs p4 = numChairs s" "waitingCustomers p4 = waitingCustomers p2"
    by (simp_all add: p4_def Let_def chairs)
  from False assms(2) loop have
    "s' = p4 \<or> s' = addRandomCustomer v s p4"
    by (auto simp: processTimeStep_def Let_def p4_def split: if_splits)
  then show ?thesis
  proof
    assume "s' = p4"
    with p4 queue assms(1) show ?thesis by simp
  next
    assume "s' = addRandomCustomer v s p4"
    then show ?thesis
      using addCustomerWithName_queue_fits [of p4 s] p4 queue assms(1)
      by (simp add: addRandomCustomer_def Let_def)
  qed
qed

lemma updateChairCount_queue_fits:
  assumes "length (waitingCustomers s) \<le> numChairs s"
  shows "length (waitingCustomers (updateChairCount n s s)) \<le> numChairs (updateChairCount n s s)"
  using assms by (auto simp: updateChairCount_def Let_def)

lemma updateBarberCount_queue_fits:
  assumes "length (waitingCustomers s) \<le> numChairs s"
  shows "length (waitingCustomers (updateBarberCount n s s)) \<le> numChairs (updateBarberCount n s s)"
  using assms by (auto simp: updateBarberCount_def Let_def)

lemma reachable_queue_fits_chairs:
  "reachable s \<Longrightarrow> length (waitingCustomers s) \<le> numChairs s"
proof (induction rule: reachable.induct)
  case reach_init
  show ?case by (simp add: initializeSimulation_def initialState_def)
next
  case (reach_add s name)
  then show ?case by (intro addCustomerWithName_queue_fits) simp_all
next
  case (reach_step s timeStep u v s')
  then show ?case by (intro processTimeStep_queue_fits [of s u v timeStep s']) simp_all
next
  case (reach_barbers s n)
  then show ?case by (intro updateBarberCount_queue_fits)
next
  case (reach_chairs s n)
  then show ?case by (intro updateChairCount_queue_fits)
qed

text \<open>
  Claim C8. In every reachable state the queue is no longer than the chairs and the
  positions of the queued customers are 0, 1, ... in order. When B is promoted from the
  queue and a customer arrives in the same step, the arrival is given the length of the
  render's queue as its position: the reached queue has one customer, at position 1.
\<close>

theorem arrival_after_promotion_breaks_positions:
  "reachable oneBusyOneWaiting \<and> queueWellFormed oneBusyOneWaiting \<and>
   (case processTimeStep 0 0 10 oneBusyOneWaiting oneBusyOneWaiting of
      Inl e \<Rightarrow> False
    | Inr s' \<Rightarrow>
        reachable s' \<and> \<not> queueWellFormed s' \<and>
        length (waitingCustomers s') = 1 \<and>
        map waitingPosition (waitingCustomers s') = [Some 1])"
proof -
  have before: "queueWellFormed oneBusyOneWaiting"
    by (simp add: queueWellFormed_def oneBusyOneWaiting_eq)
  have "reachable (projr (processTimeStep 0 0 10 oneBusyOneWaiting oneBusyOneWaiting))"
    by (rule reach_step [OF reachable_oneBusyOneWaiting, where timeStep = 10 and u = 0 and v = 0])
       (simp_all add: step_oneBusyOneWaiting)
  then show ?thesis
    using before reachable_oneBusyOneWaiting
    by (simp add: step_oneBusyOneWaiting queueWellFormed_def)
qed

text \<open>The step is taken by a running simulation, and its result is reachable.\<close>

theorem arrival_after_promotion_breaks_positions_witness:
  "isRunning oneBusyOneWaiting \<and> \<not> isPaused oneBusyOneWaiting \<and>
   (\<exists>s'. processTimeStep 0 0 10 oneBusyOneWaiting oneBusyOneWaiting = Inr s' \<and>
         reachable s' \<and> map waitingPosition (waitingCustomers s') = [Some 1])"
  using arrival_after_promotion_breaks_positions
  by (auto simp: oneBusyOneWaiting_eq split: sum.splits)

subsection \<open>The admission rule\<close>

text \<open>
  What \<open>addCustomerWithName\<close> does with a customer, by what its render shows: the first
  sleeping barber of the array takes the customer (lemma \<open>addCustomerWithName_sleeping\<close>
  with \<open>findIndex_first\<close>); with no sleeping barber and a queue shorter than the chairs
  the customer is appended to the pending queue with the render's queue length as
  position; otherwise the customer is turned away on the spot. For a customer added by
  hand the pending state is the render's, and the position is the index in the new queue.
\<close>

lemma findIndex_first:
  assumes "\<exists>x \<in> set xs. P x"
  shows "\<exists>i. findIndex P xs = Some i \<and> i < length xs \<and> P (xs ! i) \<and> (\<forall>j < i. \<not> P (xs ! j))"
  using assms
proof (induction xs)
  case Nil
  then show ?case by simp
next
  case (Cons x xs)
  show ?case
  proof (cases "P x")
    case True
    then show ?thesis by simp
  next
    case False
    with Cons.prems have "\<exists>y \<in> set xs. P y" by auto
    from Cons.IH [OF this] obtain i where
      i: "findIndex P xs = Some i" "i < length xs" "P (xs ! i)" "\<forall>j < i. \<not> P (xs ! j)"
      by blast
    have "\<forall>j < Suc i. \<not> P ((x # xs) ! j)"
      using False i(4) by (auto simp: less_Suc_eq_0_disj)
    with False i(1-3) show ?thesis by auto
  qed
qed

lemma findIndex_None: "findIndex P xs = None \<longleftrightarrow> (\<forall>x \<in> set xs. \<not> P x)"
  by (induction xs) auto

lemma addCustomerWithName_sleeping:
  assumes "findIndex (\<lambda>b. b_state b = SLEEPING) (barbers s) = Some i" and "i < length (barbers s)"
  shows "waitingCustomers (addCustomerWithName name s p) = waitingCustomers p \<and>
         turnedAwayCustomers (addCustomerWithName name s p) = turnedAwayCustomers p \<and>
         currentCustomers (addCustomerWithName name s p) =
           currentCustomers p @
           [\<lparr>c_id = nextCustomerId s, c_name = name, c_state = GETTING_HAIRCUT,
             timeArrived = currentTime s, timeServed = Some (currentTime s), timeLeft = None,
             servedBy = Some (i + 1), waitingPosition = None,
             c_serviceEndTime = Some (currentTime s + serviceTime s)\<rparr>] \<and>
         b_state (barbers (addCustomerWithName name s p) ! i) = WORKING \<and>
         servingCustomerId (barbers (addCustomerWithName name s p) ! i) = Some (nextCustomerId s)"
  using assms by (simp add: addCustomerWithName_def startIfNotRunning_def Let_def)

lemma addCustomerWithName_queued:
  assumes "findIndex (\<lambda>b. b_state b = SLEEPING) (barbers s) = None"
    and "length (waitingCustomers s) < numChairs s"
  shows "waitingCustomers (addCustomerWithName name s p) =
           waitingCustomers p @
           [\<lparr>c_id = nextCustomerId s, c_name = name, c_state = WAITING,
             timeArrived = currentTime s, timeServed = None, timeLeft = None,
             servedBy = None, waitingPosition = Some (length (waitingCustomers s)),
             c_serviceEndTime = None\<rparr>] \<and>
         currentCustomers (addCustomerWithName name s p) = currentCustomers p \<and>
         turnedAwayCustomers (addCustomerWithName name s p) = turnedAwayCustomers p \<and>
         barbers (addCustomerWithName name s p) = barbers p"
  using assms by (simp add: addCustomerWithName_def startIfNotRunning_def Let_def)

lemma addCustomerWithName_turned_away:
  assumes "findIndex (\<lambda>b. b_state b = SLEEPING) (barbers s) = None"
    and "\<not> length (waitingCustomers s) < numChairs s"
  shows "turnedAwayCustomers (addCustomerWithName name s p) =
           turnedAwayCustomers p @
           [\<lparr>c_id = nextCustomerId s, c_name = name, c_state = TURNED_AWAY,
             timeArrived = currentTime s, timeServed = None, timeLeft = Some (currentTime s),
             servedBy = None, waitingPosition = None, c_serviceEndTime = None\<rparr>] \<and>
         currentCustomers (addCustomerWithName name s p) = currentCustomers p \<and>
         waitingCustomers (addCustomerWithName name s p) = waitingCustomers p \<and>
         barbers (addCustomerWithName name s p) = barbers p"
  using assms by (simp add: addCustomerWithName_def Let_def)

text \<open>
  Claim C2. A new customer, arriving by itself or added by hand, goes to the lowest
  sleeping barber, else to the tail of the queue with position length - 1, else is turned
  away. For an arrival in the step that promotes B from the queue \<open>[B, C]\<close>, the new
  customer 4 is the last of the two queued customers and carries position 2, not 1.
\<close>

theorem organic_arrival_position_past_the_tail:
  "reachable oneBusyTwoWaiting \<and>
   (case processTimeStep 0 0 10 oneBusyTwoWaiting oneBusyTwoWaiting of
      Inl e \<Rightarrow> False
    | Inr s' \<Rightarrow>
        map c_id (waitingCustomers s') = [3, 4] \<and>
        c_id (last (waitingCustomers s')) = nextCustomerId oneBusyTwoWaiting \<and>
        c_state (last (waitingCustomers s')) = WAITING \<and>
        length (waitingCustomers s') - 1 = 1 \<and>
        waitingPosition (last (waitingCustomers s')) = Some 2)"
  using reachable_oneBusyTwoWaiting
  by (simp add: step_oneBusyTwoWaiting) (simp add: oneBusyTwoWaiting_eq)

text \<open>The step is taken by a running simulation and returns.\<close>

theorem organic_arrival_position_past_the_tail_witness:
  "isRunning oneBusyTwoWaiting \<and> \<not> isPaused oneBusyTwoWaiting \<and>
   (\<exists>s'. processTimeStep 0 0 10 oneBusyTwoWaiting oneBusyTwoWaiting = Inr s' \<and>
         map c_id (waitingCustomers s') = [3, 4] \<and>
         waitingPosition (last (waitingCustomers s')) = Some 2)"
  using organic_arrival_position_past_the_tail
  by (auto simp: oneBusyTwoWaiting_eq split: sum.splits)

section \<open>A negative time step\<close>

text \<open>
  Claim C4, as stated: a step with a negative delta fails with InvalidArgument and leaves
  the snapshot unchanged. The code has no such check: on the running simulation
  \<open>oneBusy\<close>, the step \<open>-1\<close> returns normally with the clock at \<open>-1\<close>.
\<close>

theorem negative_step_moves_the_clock_back:
  "isRunning oneBusy \<and> \<not> isPaused oneBusy \<and>
   processTimeStep 0 0 (- 1) oneBusy oneBusy = Inr (oneBusy\<lparr>currentTime := - 1\<rparr>) \<and>
   oneBusy\<lparr>currentTime := - 1\<rparr> \<noteq> oneBusy"
  by (simp add: oneBusy_eq handler_defs)

text \<open>
  The loop of a step leaves the pending clock alone and keeps the length of the barber
  array; it returns when every customer in service points at a barber of the array.
\<close>

lemma finishCustomer_Inr:
  assumes "finishCustomer s newTime c (l, p) = Inr (l', p')"
  shows "currentTime p' = currentTime p \<and> length (updatedBarbers l') = length (updatedBarbers l)"
  using assms
  by (auto simp: finishCustomer_def Let_def split: option.splits if_splits list.splits)

lemma finishCustomer_Inl:
  assumes "finishCustomer s newTime c (l, p) = Inl (e, p')"
  shows "p' = p"
  using assms
  by (auto simp: finishCustomer_def Let_def split: option.splits if_splits list.splits)

lemma finishCustomer_returns:
  assumes "servedBy c = Some sb" and "0 < sb" and "sb \<le> length (updatedBarbers l)"
  shows "\<exists>r. finishCustomer s newTime c (l, p) = Inr r"
  using assms
  by (auto simp: finishCustomer_def Let_def split: option.splits if_splits list.splits)

lemma forEach_finishCustomer_Inr:
  assumes "forEach (finishCustomer s newTime) cs (l, p) = Inr (l', p')"
  shows "currentTime p' = currentTime p \<and> length (updatedBarbers l') = length (updatedBarbers l)"
  using assms
proof (induction cs arbitrary: l p)
  case Nil
  then show ?case by simp
next
  case (Cons c cs)
  from Cons.prems obtain l1 p1 where
    first: "finishCustomer s newTime c (l, p) = Inr (l1, p1)" and
    rest: "forEach (finishCustomer s newTime) cs (l1, p1) = Inr (l', p')"
    by (auto split: sum.splits)
  from finishCustomer_Inr [OF first] Cons.IH [OF rest] show ?case by simp
qed

lemma forEach_finishCustomer_Inl:
  assumes "forEach (finishCustomer s newTime) cs (l, p) = Inl (e, p')"
  shows "currentTime p' = currentTime p"
  using assms
proof (induction cs arbitrary: l p)
  case Nil
  then show ?case by simp
next
  case (Cons c cs)
  show ?case
  proof (cases "finishCustomer s newTime c (l, p)")
    case (Inl a)
    with Cons.prems have "finishCustomer s newTime c (l, p) = Inl (e, p')" by simp
    from finishCustomer_Inl [OF this] show ?thesis by simp
  next
    case (Inr r)
    obtain l1 p1 where r: "r = (l1, p1)" by (cases r)
    from Cons.prems Inr r have "forEach (finishCustomer s newTime) cs (l1, p1) = Inl (e, p')"
      by simp
    from Cons.IH [OF this] finishCustomer_Inr [OF Inr [unfolded r]] show ?thesis by simp
  qed
qed

lemma forEach_finishCustomer_returns:
  assumes "\<forall>c \<in> set cs. case servedBy c of None \<Rightarrow> False | Some sb \<Rightarrow> 0 < sb \<and> sb \<le> n"
    and "length (updatedBarbers l) = n"
  shows "\<exists>r. forEach (finishCustomer s newTime) cs (l, p) = Inr r"
  using assms
proof (induction cs arbitrary: l p)
  case Nil
  then show ?case by simp
next
  case (Cons c cs)
  from Cons.prems obtain sb where "servedBy c = Some sb" "0 < sb" "sb \<le> length (updatedBarbers l)"
    by (auto split: option.splits)
  from finishCustomer_returns [OF this] obtain l1 p1 where
    first: "finishCustomer s newTime c (l, p) = Inr (l1, p1)"
    by (metis surj_pair)
  from finishCustomer_Inr [OF first] Cons.prems(2) have len: "length (updatedBarbers l1) = n"
    by simp
  from Cons.prems(1) have "\<forall>c \<in> set cs. case servedBy c of None \<Rightarrow> False
                                | Some sb \<Rightarrow> 0 < sb \<and> sb \<le> n"
    by simp
  from Cons.IH [OF this len] first show ?case by simp
qed

lemma addCustomerWithName_currentTime:
  "currentTime (addCustomerWithName name s p) = currentTime p"
  by (simp add: addCustomerWithName_def startIfNotRunning_def Let_def split: option.splits)

lemma addRandomCustomer_currentTime:
  "currentTime (addRandomCustomer v s p) = currentTime p"
  by (simp add: addRandomCustomer_def Let_def addCustomerWithName_currentTime)

lemma processTimeStep_Inr_time:
  assumes "isRunning s" and "\<not> isPaused s" and "processTimeStep u v timeStep s s = Inr s'"
  shows "currentTime s' = currentTime s + timeStep"
proof -
  let ?start = "(\<lparr>updatedBarbers = barbers s, finishedCustomers = [],
                  updatedCurrentCustomers = currentCustomers s, customersToRemove = []\<rparr>,
                 s\<lparr>currentTime := currentTime s + timeStep\<rparr>)"
  from assms obtain l p2 where
    loop: "forEach (finishCustomer s (currentTime s + timeStep)) (currentCustomers s) ?start =
             Inr (l, p2)"
    by (auto simp: processTimeStep_def Let_def split: sum.splits)
  from forEach_finishCustomer_Inr [OF loop] have "currentTime p2 = currentTime s + timeStep"
    by simp
  with assms loop show ?thesis
    by (auto simp: processTimeStep_def Let_def addRandomCustomer_currentTime split: if_splits)
qed

lemma processTimeStep_Inl_time:
  assumes "processTimeStep u v timeStep s s = Inl (e, p)"
  shows "currentTime p = currentTime s + timeStep"
proof -
  let ?start = "(\<lparr>updatedBarbers = barbers s, finishedCustomers = [],
                  updatedCurrentCustomers = currentCustomers s, customersToRemove = []\<rparr>,
                 s\<lparr>currentTime := currentTime s + timeStep\<rparr>)"
  from assms have
    "forEach (finishCustomer s (currentTime s + timeStep)) (currentCustomers s) ?start = Inl (e, p)"
    by (auto simp: processTimeStep_def Let_def split: sum.splits if_splits)
  from forEach_finishCustomer_Inl [OF this] show ?thesis by simp
qed

lemma processTimeStep_returns:
  assumes "servedByInRange s"
  shows "\<exists>s'. processTimeStep u v timeStep s s = Inr s'"
proof -
  let ?l = "\<lparr>updatedBarbers = barbers s, finishedCustomers = [],
             updatedCurrentCustomers = currentCustomers s, customersToRemove = []\<rparr>"
  from assms have inRange: "\<forall>c \<in> set (currentCustomers s). case servedBy c of None \<Rightarrow> False
                      | Some sb \<Rightarrow> 0 < sb \<and> sb \<le> length (barbers s)"
    by (simp add: servedByInRange_def)
  have "length (updatedBarbers ?l) = length (barbers s)"
    by simp
  from forEach_finishCustomer_returns [OF inRange this]
  obtain r where "forEach (finishCustomer s (currentTime s + timeStep)) (currentCustomers s)
                    (?l, s\<lparr>currentTime := currentTime s + timeStep\<rparr>) = Inr r"
    by blast
  then show ?thesis
    by (cases r) (simp add: processTimeStep_def Let_def)
qed

text \<open>
  The loop in closed form: when the barber of every due customer is in the array, the
  loop returns the locals and the pending queue that \<open>completions\<close> is built from;
  otherwise it throws, with nothing pending but the clock and, if a customer was promoted
  before the throw, the renumbered queue.
\<close>

lemma freeBarbers_length [simp]: "length (freeBarbers s t due bs) = length bs"
  unfolding freeBarbers_def by (induction due arbitrary: bs) simp_all

lemma freeBarbers_Cons:
  "freeBarbers s t (c # due) bs =
   freeBarbers s t due (bs[barberIndex c := freedBarber s t (bs ! barberIndex c)])"
  by (simp add: freeBarbers_def)

lemma freeBarbers_Nil [simp]: "freeBarbers s t [] bs = bs"
  by (simp add: freeBarbers_def)

lemma forEach_finishCustomer_exact:
  assumes "\<forall>c \<in> set cs. finishes t c \<longrightarrow>
             (\<exists>i. servedBy c = Some (Suc i) \<and> i < length (updatedBarbers l))"
  shows "forEach (finishCustomer s t) cs (l, p) =
           Inr (l\<lparr>finishedCustomers := finishedCustomers l @ map servedAt (filter (finishes t) cs),
                  customersToRemove := customersToRemove l @ map c_id (filter (finishes t) cs),
                  updatedBarbers := freeBarbers s t (filter (finishes t) cs) (updatedBarbers l),
                  updatedCurrentCustomers := updatedCurrentCustomers l @
                    concat (map (\<lambda>c. promoted s t (barberIndex c)) (filter (finishes t) cs))\<rparr>,
                p\<lparr>waitingCustomers :=
                    (if filter (finishes t) cs = [] \<or> waitingCustomers s = []
                     then waitingCustomers p else queueAfterPromotion s)\<rparr>)"
  using assms
proof (induction cs arbitrary: l p)
  case Nil
  show ?case by simp
next
  case (Cons c cs)
  show ?case
  proof (cases "finishes t c")
    case False
    from Cons.prems have "\<forall>c \<in> set cs. finishes t c \<longrightarrow>
             (\<exists>i. servedBy c = Some (Suc i) \<and> i < length (updatedBarbers l))" by simp
    from Cons.IH [OF this] False show ?thesis
      by (simp add: finishCustomer_skip)
  next
    case True
    with Cons.prems obtain i where i: "servedBy c = Some (Suc i)" "i < length (updatedBarbers l)"
      by auto
    from True obtain e where e: "c_serviceEndTime c = Some e"
      by (auto simp: finishes_def split: option.splits)
    let ?l1 = "l\<lparr>finishedCustomers := finishedCustomers l @ [c\<lparr>c_state := SERVED, timeLeft := Some e\<rparr>],
                  customersToRemove := customersToRemove l @ [c_id c],
                  updatedBarbers := (updatedBarbers l)[i := freedBarber s t (updatedBarbers l ! i)],
                  updatedCurrentCustomers := updatedCurrentCustomers l @ promoted s t i\<rparr>"
    let ?p1 = "p\<lparr>waitingCustomers :=
                    (if waitingCustomers s = [] then waitingCustomers p else queueAfterPromotion s)\<rparr>"
    have first: "finishCustomer s t c (l, p) = Inr (?l1, ?p1)"
      by (rule finishCustomer_finishes [OF True e i])
    from Cons.prems have "\<forall>c \<in> set cs. finishes t c \<longrightarrow>
             (\<exists>i. servedBy c = Some (Suc i) \<and> i < length (updatedBarbers ?l1))" by simp
    from Cons.IH [OF this, of ?p1] first True i e show ?thesis
      by (simp add: freeBarbers_Cons barberIndex_def servedAt_def)
  qed
qed

lemma finishCustomer_in_range:
  assumes "finishCustomer s t c (l, p) = Inr r" and "finishes t c"
  shows "\<exists>i. servedBy c = Some (Suc i) \<and> i < length (updatedBarbers l)"
proof -
  from assms obtain sb where sb: "servedBy c = Some sb" "sb \<noteq> 0" "\<not> length (updatedBarbers l) \<le> sb - 1"
    by (auto simp: finishCustomer_def finishes_def Let_def split: option.splits if_splits)
  then obtain i where "sb = Suc i" by (cases sb) auto
  with sb show ?thesis by simp
qed

lemma forEach_finishCustomer_in_range:
  assumes "forEach (finishCustomer s t) cs (l, p) = Inr r"
  shows "\<forall>c \<in> set cs. finishes t c \<longrightarrow>
           (\<exists>i. servedBy c = Some (Suc i) \<and> i < length (updatedBarbers l))"
  using assms
proof (induction cs arbitrary: l p)
  case Nil
  show ?case by simp
next
  case (Cons c cs)
  from Cons.prems obtain l1 p1 where
    first: "finishCustomer s t c (l, p) = Inr (l1, p1)" and
    rest: "forEach (finishCustomer s t) cs (l1, p1) = Inr r"
    by (auto split: sum.splits)
  from finishCustomer_Inr [OF first] have len: "length (updatedBarbers l1) = length (updatedBarbers l)"
    by simp
  from Cons.IH [OF rest] len finishCustomer_in_range [OF first] show ?case by auto
qed

lemma finishCustomer_pending:
  assumes "finishCustomer s t c (l, p) = Inr (l', p')"
  shows "p' = p \<or> p' = p\<lparr>waitingCustomers := queueAfterPromotion s\<rparr>"
  using assms
  by (auto simp: finishCustomer_def queueAfterPromotion_def Let_def
           split: option.splits if_splits list.splits)

lemma forEach_finishCustomer_thrown:
  assumes "forEach (finishCustomer s t) cs (l, p) = Inl (e, p')"
  shows "p' = p \<or> p' = p\<lparr>waitingCustomers := queueAfterPromotion s\<rparr>"
  using assms
proof (induction cs arbitrary: l p)
  case Nil
  then show ?case by simp
next
  case (Cons c cs)
  show ?case
  proof (cases "finishCustomer s t c (l, p)")
    case (Inl a)
    with Cons.prems have "finishCustomer s t c (l, p) = Inl (e, p')" by simp
    from finishCustomer_Inl [OF this] show ?thesis by simp
  next
    case (Inr r)
    obtain l1 p1 where r: "r = (l1, p1)" by (cases r)
    from Cons.prems Inr r have "forEach (finishCustomer s t) cs (l1, p1) = Inl (e, p')"
      by simp
    from Cons.IH [OF this] finishCustomer_pending [OF Inr [unfolded r]] show ?thesis by auto
  qed
qed

lemma completions_nothing_due:
  assumes "\<forall>c \<in> set (currentCustomers s). \<not> finishes t c"
  shows "completions s t = s\<lparr>currentTime := t\<rparr>"
proof -
  from assms have "filter (finishes t) (currentCustomers s) = []"
    by (simp add: filter_empty_conv)
  then show ?thesis by (simp add: completions_def)
qed

lemma processTimeStep_completions:
  assumes "isRunning s" and "\<not> isPaused s"
    and "\<not> u < (arrivalRate s / 60) * timeStep"
    and "dueInRange s (currentTime s + timeStep)"
  shows "processTimeStep u v timeStep s s = Inr (completions s (currentTime s + timeStep))"
proof -
  let ?t = "currentTime s + timeStep"
  let ?l0 = "\<lparr>updatedBarbers = barbers s, finishedCustomers = [],
              updatedCurrentCustomers = currentCustomers s, customersToRemove = []\<rparr>"
  have "\<exists>i. servedBy c = Some (Suc i) \<and> i < length (updatedBarbers ?l0)"
    if "c \<in> set (currentCustomers s)" and "finishes ?t c" for c
  proof -
    from assms(4) that obtain sb where sb: "servedBy c = Some sb" "0 < sb" "sb \<le> length (barbers s)"
      by (auto simp: dueInRange_def split: option.splits)
    then obtain i where "sb = Suc i" by (cases sb) auto
    with sb show ?thesis by simp
  qed
  then have "\<forall>c \<in> set (currentCustomers s). finishes ?t c \<longrightarrow>
             (\<exists>i. servedBy c = Some (Suc i) \<and> i < length (updatedBarbers ?l0))"
    by blast
  from forEach_finishCustomer_exact [OF this, of s "s\<lparr>currentTime := ?t\<rparr>"]
  have loop: "forEach (finishCustomer s ?t) (currentCustomers s) (?l0, s\<lparr>currentTime := ?t\<rparr>) =
           Inr (\<lparr>updatedBarbers = freeBarbers s ?t (filter (finishes ?t) (currentCustomers s)) (barbers s),
                  finishedCustomers = map servedAt (filter (finishes ?t) (currentCustomers s)),
                  updatedCurrentCustomers = currentCustomers s @
                    concat (map (\<lambda>c. promoted s ?t (barberIndex c))
                              (filter (finishes ?t) (currentCustomers s))),
                  customersToRemove = map c_id (filter (finishes ?t) (currentCustomers s))\<rparr>,
                s\<lparr>currentTime := ?t,
                  waitingCustomers :=
                    (if filter (finishes ?t) (currentCustomers s) = [] \<or> waitingCustomers s = []
                     then waitingCustomers s else queueAfterPromotion s)\<rparr>)"
    by simp
  have empty: "waitingCustomers s = [] \<Longrightarrow> queueAfterPromotion s = []"
    by (simp add: queueAfterPromotion_def)
  show ?thesis
  proof (cases "filter (finishes ?t) (currentCustomers s) = []")
    case True
    with assms(1-3) show ?thesis
      by (simp add: processTimeStep_def Let_def completions_def loop)
  next
    case False
    with assms(1-3) show ?thesis
      by (simp add: processTimeStep_def Let_def completions_def loop empty)
  qed
qed

lemma processTimeStep_throws:
  assumes "isRunning s" and "\<not> isPaused s"
    and "\<not> dueInRange s (currentTime s + timeStep)"
  shows "processTimeStep u v timeStep s s =
           Inl (TypeError, s\<lparr>currentTime := currentTime s + timeStep\<rparr>) \<or>
         processTimeStep u v timeStep s s =
           Inl (TypeError, s\<lparr>currentTime := currentTime s + timeStep,
                              waitingCustomers := queueAfterPromotion s\<rparr>)"
proof -
  let ?t = "currentTime s + timeStep"
  let ?l0 = "\<lparr>updatedBarbers = barbers s, finishedCustomers = [],
              updatedCurrentCustomers = currentCustomers s, customersToRemove = []\<rparr>"
  let ?loop = "forEach (finishCustomer s ?t) (currentCustomers s) (?l0, s\<lparr>currentTime := ?t\<rparr>)"
  have "\<exists>e p. ?loop = Inl (e, p)"
  proof (cases ?loop)
    case (Inl a)
    then show ?thesis by (cases a) simp
  next
    case (Inr r)
    from forEach_finishCustomer_in_range [OF Inr] have "dueInRange s ?t"
      by (auto simp: dueInRange_def)
    with assms(3) show ?thesis by simp
  qed
  then obtain e p where loop: "?loop = Inl (e, p)" by blast
  from forEach_finishCustomer_thrown [OF loop] have
    "p = s\<lparr>currentTime := ?t\<rparr> \<or> p = s\<lparr>currentTime := ?t, waitingCustomers := queueAfterPromotion s\<rparr>"
    by simp
  moreover have "e = TypeError" by (cases e)
  moreover from assms(1,2) loop have "processTimeStep u v timeStep s s = Inl (e, p)"
    by (simp add: processTimeStep_def Let_def)
  ultimately show ?thesis by auto
qed

text \<open>
  Claim C4, amended. A step with a negative delta is not refused: no InvalidArgument
  exists (\<open>Math.random()\<close> is never negative; the arrival rate is assumed not negative).
  When the simulation is not running or is paused the call returns the snapshot unchanged,
  as for any delta. Otherwise no arrival is admitted, and:
  when no customer in service is due at the new time \<open>currentTime + timeStep\<close>, the
  snapshot is left completely unchanged but for the clock, which becomes that time;
  when customers are due and their barbers are in the array, the result is exactly the
  completions of a step at that time, \<open>completions\<close>, which touches the clock, the
  barbers, the customers in service, the served list and the queue and nothing else;
  when a due customer's barber is not in the array the call throws \<open>TypeError\<close>, with the
  clock moved and at most the queue renumbered in the pending state.
\<close>

theorem processTimeStep_negative_delta_exact:
  assumes "timeStep < 0" and "0 \<le> u" and "0 \<le> arrivalRate s"
  shows "(\<not> isRunning s \<or> isPaused s \<longrightarrow> processTimeStep u v timeStep s s = Inr s) \<and>
         (isRunning s \<and> \<not> isPaused s \<longrightarrow>
            ((\<forall>c \<in> set (currentCustomers s). \<not> finishes (currentTime s + timeStep) c) \<longrightarrow>
               processTimeStep u v timeStep s s = Inr (s\<lparr>currentTime := currentTime s + timeStep\<rparr>)) \<and>
            (dueInRange s (currentTime s + timeStep) \<longrightarrow>
               processTimeStep u v timeStep s s = Inr (completions s (currentTime s + timeStep))) \<and>
            (\<not> dueInRange s (currentTime s + timeStep) \<longrightarrow>
               processTimeStep u v timeStep s s =
                 Inl (TypeError, s\<lparr>currentTime := currentTime s + timeStep\<rparr>) \<or>
               processTimeStep u v timeStep s s =
                 Inl (TypeError, s\<lparr>currentTime := currentTime s + timeStep,
                                    waitingCustomers := queueAfterPromotion s\<rparr>)))"
proof -
  from assms have "(arrivalRate s / 60) * timeStep \<le> 0"
    by (intro mult_nonneg_nonpos) simp_all
  with assms(2) have quiet: "\<not> u < (arrivalRate s / 60) * timeStep"
    by simp
  show ?thesis
  proof (intro conjI impI)
    assume "\<not> isRunning s \<or> isPaused s"
    then show "processTimeStep u v timeStep s s = Inr s"
      by (auto simp: processTimeStep_def)
  next
    assume run: "isRunning s \<and> \<not> isPaused s"
      and none: "\<forall>c \<in> set (currentCustomers s). \<not> finishes (currentTime s + timeStep) c"
    from none have "dueInRange s (currentTime s + timeStep)"
      by (simp add: dueInRange_def)
    with run quiet processTimeStep_completions [of s u timeStep v]
      completions_nothing_due [OF none]
    show "processTimeStep u v timeStep s s = Inr (s\<lparr>currentTime := currentTime s + timeStep\<rparr>)"
      by simp
  next
    assume "isRunning s \<and> \<not> isPaused s" and "dueInRange s (currentTime s + timeStep)"
    with quiet show "processTimeStep u v timeStep s s = Inr (completions s (currentTime s + timeStep))"
      by (intro processTimeStep_completions) simp_all
  next
    assume "isRunning s \<and> \<not> isPaused s" and "\<not> dueInRange s (currentTime s + timeStep)"
    then show "processTimeStep u v timeStep s s =
                 Inl (TypeError, s\<lparr>currentTime := currentTime s + timeStep\<rparr>) \<or>
               processTimeStep u v timeStep s s =
                 Inl (TypeError, s\<lparr>currentTime := currentTime s + timeStep,
                                    waitingCustomers := queueAfterPromotion s\<rparr>)"
      by (intro processTimeStep_throws) simp_all
  qed
qed

text \<open>
  The amended claim at two running simulations and the step \<open>-1\<close>: in \<open>oneBusy\<close> nothing
  is due and only the clock changes; in \<open>lateArrival\<close>, at clock 20, customer 2 has been
  due since 10, and the step to 19 serves it and puts its barber to sleep.
\<close>

theorem processTimeStep_negative_delta_exact_witness:
  "(- 1 :: real) < 0 \<and> (0 :: real) \<le> 0 \<and> 0 \<le> arrivalRate oneBusy \<and>
   isRunning oneBusy \<and> \<not> isPaused oneBusy \<and>
   processTimeStep 0 0 (- 1) oneBusy oneBusy =
     Inr (oneBusy\<lparr>currentTime := currentTime oneBusy + (- 1)\<rparr>) \<and>
   0 \<le> arrivalRate lateArrival \<and> isRunning lateArrival \<and> \<not> isPaused lateArrival \<and>
   dueInRange lateArrival (currentTime lateArrival + (- 1)) \<and>
   processTimeStep 0 0 (- 1) lateArrival lateArrival =
     Inr (completions lateArrival (currentTime lateArrival + (- 1))) \<and>
   currentTime (completions lateArrival (currentTime lateArrival + (- 1))) = 19 \<and>
   map c_id (servedCustomers (completions lateArrival (currentTime lateArrival + (- 1)))) = [1, 2] \<and>
   currentCustomers (completions lateArrival (currentTime lateArrival + (- 1))) = [] \<and>
   map b_state (barbers (completions lateArrival (currentTime lateArrival + (- 1)))) =
     [WORKING, SLEEPING]"
proof -
  have neg: "(- 1 :: real) < 0" and u: "(0 :: real) \<le> 0" by simp_all
  have rate1: "0 \<le> arrivalRate oneBusy" and run1: "isRunning oneBusy \<and> \<not> isPaused oneBusy"
    by (simp_all add: oneBusy_eq)
  have none: "\<forall>c \<in> set (currentCustomers oneBusy). \<not> finishes (currentTime oneBusy + (- 1)) c"
    by (simp add: oneBusy_eq finishes_def)
  have rate2: "0 \<le> arrivalRate lateArrival"
    and run2: "isRunning lateArrival \<and> \<not> isPaused lateArrival"
    by (simp_all add: lateArrival_eq)
  have range: "dueInRange lateArrival (currentTime lateArrival + (- 1))"
    by (simp add: dueInRange_def lateArrival_eq)
  have after: "currentTime (completions lateArrival (currentTime lateArrival + (- 1))) = 19"
    "map c_id (servedCustomers (completions lateArrival (currentTime lateArrival + (- 1)))) = [1, 2]"
    "currentCustomers (completions lateArrival (currentTime lateArrival + (- 1))) = []"
    "map b_state (barbers (completions lateArrival (currentTime lateArrival + (- 1)))) =
       [WORKING, SLEEPING]"
    by (simp_all add: completions_def lateArrival_eq finishes_def servedAt_def barberIndex_def
          freeBarbers_def freedBarber_def promoted_def Let_def)
  from processTimeStep_negative_delta_exact [OF neg u rate1, of 0] run1 none
  have first: "processTimeStep 0 0 (- 1) oneBusy oneBusy =
                 Inr (oneBusy\<lparr>currentTime := currentTime oneBusy + (- 1)\<rparr>)"
    by blast
  from processTimeStep_negative_delta_exact [OF neg u rate2, of 0] run2 range
  have second: "processTimeStep 0 0 (- 1) lateArrival lateArrival =
                  Inr (completions lateArrival (currentTime lateArrival + (- 1)))"
    by blast
  show ?thesis
    using neg u rate1 run1 first rate2 run2 range second after by blast
qed

section \<open>Shrinking the chairs\<close>

lemma clampCount_bounds: "0 < hi \<Longrightarrow> 1 \<le> clampCount hi n \<and> int (clampCount hi n) \<le> hi"
  by (auto simp: clampCount_def Let_def)

lemma take_positions:
  assumes "map waitingPosition ws = map Some [0..<length ws]" and "k \<le> length ws"
  shows "map waitingPosition (take k ws) = map Some [0..<k]"
proof -
  have "map waitingPosition (take k ws) = take k (map waitingPosition ws)"
    by (simp add: take_map)
  also have "\<dots> = map Some (take k [0..<length ws])"
    using assms(1) by (simp add: take_map)
  also have "take k [0..<length ws] = [0..<k]"
    using assms(2) by simp
  finally show ?thesis .
qed

text \<open>
  What \<open>updateChairCount\<close> does when the chair count is lowered to a capacity (the
  request clamped to 1..10) below the queue length: the customers beyond the new capacity,
  the last arrived, leave the queue and are appended to the turned-away list in state
  \<open>TURNED_AWAY\<close> with \<open>timeLeft\<close> the current time; there are exactly length - capacity of
  them; the customers before them stay as they were, in order, and the queue is as long
  as the new capacity. The stayers keep the positions they had (the queue is sliced, not
  renumbered), so they are at 0..capacity-1 when the positions were 0..length-1 before.
\<close>

lemma updateChairCount_evicts_the_tail:
  assumes "clampCount 10 n < numChairs s"
    and "clampCount 10 n < length (waitingCustomers s)"
    and "map waitingPosition (waitingCustomers s) = map Some [0..<length (waitingCustomers s)]"
    and "\<forall>c \<in> set (waitingCustomers s). c_state c = WAITING"
  shows "waitingCustomers (updateChairCount n s s) = take (clampCount 10 n) (waitingCustomers s) \<and>
         (\<forall>c \<in> set (waitingCustomers (updateChairCount n s s)). c_state c = WAITING) \<and>
         turnedAwayCustomers (updateChairCount n s s) =
           turnedAwayCustomers s @
           map (\<lambda>c. c\<lparr>c_state := TURNED_AWAY, timeLeft := Some (currentTime s)\<rparr>)
             (drop (clampCount 10 n) (waitingCustomers s)) \<and>
         length (turnedAwayCustomers (updateChairCount n s s)) =
           length (turnedAwayCustomers s) + (length (waitingCustomers s) - clampCount 10 n) \<and>
         map waitingPosition (waitingCustomers (updateChairCount n s s)) =
           map Some [0..<clampCount 10 n] \<and>
         numChairs (updateChairCount n s s) = clampCount 10 n \<and>
         length (waitingCustomers (updateChairCount n s s)) = numChairs (updateChairCount n s s) \<and>
         currentCustomers (updateChairCount n s s) = currentCustomers s \<and>
         servedCustomers (updateChairCount n s s) = servedCustomers s \<and>
         barbers (updateChairCount n s s) = barbers s"
proof -
  have pos: "map waitingPosition (take (clampCount 10 n) (waitingCustomers s)) =
             map Some [0..<clampCount 10 n]"
    using assms(2,3) by (intro take_positions) simp_all
  have waiting: "\<forall>c \<in> set (take (clampCount 10 n) (waitingCustomers s)). c_state c = WAITING"
    using assms(4) by (auto dest: in_set_takeD)
  show ?thesis
    using assms(1,2) pos waiting by (simp add: updateChairCount_def Let_def)
qed

text \<open>
  Claim C6. After a chair-count decrease below the queue length the customers that stay
  are at positions 0..newLength-1. In the reachable state \<open>staleQueueTwo\<close> customers 3 and
  4 wait, both at position 1 (customer 3 arrived in the step that promoted B and was
  given the render's queue length); lowering the chairs to 1 turns customer 4 away and
  leaves customer 3 in the queue, still at position 1, not 0: the slice keeps the
  positions and nothing renumbers them, as the promotion of a step does for the
  customers left in the queue.
\<close>

theorem chair_decrease_keeps_stale_position:
  "reachable staleQueueTwo \<and>
   clampCount 10 1 < numChairs staleQueueTwo \<and>
   clampCount 10 1 < length (waitingCustomers staleQueueTwo) \<and>
   map c_id (waitingCustomers staleQueueTwo) = [3, 4] \<and>
   map waitingPosition (waitingCustomers staleQueueTwo) = [Some 1, Some 1] \<and>
   map c_id (waitingCustomers (updateChairCount 1 staleQueueTwo staleQueueTwo)) = [3] \<and>
   map waitingPosition (waitingCustomers (updateChairCount 1 staleQueueTwo staleQueueTwo)) =
     [Some 1] \<and>
   map c_id (turnedAwayCustomers (updateChairCount 1 staleQueueTwo staleQueueTwo)) = [4] \<and>
   numChairs (updateChairCount 1 staleQueueTwo staleQueueTwo) = 1"
  using reachable_staleQueueTwo
  by (simp add: staleQueueTwo_eq updateChairCount_def clampCount_def Let_def)

text \<open>After the decrease one customer waits, customer 3, at position 1.\<close>

theorem chair_decrease_keeps_stale_position_witness:
  "\<exists>c. waitingCustomers (updateChairCount 1 staleQueueTwo staleQueueTwo) = [c] \<and>
       c_id c = 3 \<and> waitingPosition c = Some 1"
  using chair_decrease_keeps_stale_position by auto

section \<open>Shrinking the barber pool\<close>

text \<open>
  The loop of \<open>updateBarberCount\<close> walks the array from its end; on the whole array it
  computes the specification's removal on the reversed list.
\<close>

lemma spec_removeFromHighest_Nil [simp]: "spec_removeFromHighest k [] = []"
  by (cases k) simp_all

lemma removeLoop_scans_from_the_end:
  "removeLoop (length xs) k r (xs @ ys) = rev (spec_removeFromHighest (k - r) (rev xs)) @ ys"
proof (induction xs arbitrary: r ys rule: rev_induct)
  case Nil
  show ?case by simp
next
  case (snoc x xs)
  show ?case
  proof (cases "r < k")
    case False
    then show ?thesis by simp
  next
    case True
    then obtain m where m: "k - r = Suc m" "k - (r + 1) = m"
      by (cases "k - r") auto
    show ?thesis
    proof (cases "b_state x = SLEEPING")
      case True
      with \<open>r < k\<close> snoc.IH [of "r + 1" ys] m show ?thesis
        by (simp add: nth_append)
    next
      case False
      with \<open>r < k\<close> snoc.IH [of r "x # ys"] m show ?thesis
        by (simp add: nth_append)
    qed
  qed
qed

lemma removeLoop_spec:
  "removeLoop (length bs) k 0 bs = rev (spec_removeFromHighest k (rev bs))"
  using removeLoop_scans_from_the_end [of bs k 0 "[]"] by simp

lemma spec_removeFromHighest_working:
  "filter (\<lambda>b. b_state b = WORKING) (spec_removeFromHighest k bs) =
   filter (\<lambda>b. b_state b = WORKING) bs"
  by (induction k bs rule: spec_removeFromHighest.induct) auto

lemma spec_removeFromHighest_length:
  "length (spec_removeFromHighest k bs) =
   length bs - min k (length (filter (\<lambda>b. b_state b = SLEEPING) bs))"
proof (induction k bs rule: spec_removeFromHighest.induct)
  case (1 bs)
  show ?case by simp
next
  case (2 k)
  show ?case by simp
next
  case (3 k b bs)
  define f where "f = length (filter (\<lambda>b. b_state b = SLEEPING) bs)"
  have le: "f \<le> length bs"
    unfolding f_def by (rule length_filter_le)
  show ?case
  proof (cases "b_state b = SLEEPING")
    case True
    with "3.IH"(1) show ?thesis by simp
  next
    case False
    with "3.IH"(2) have "length (spec_removeFromHighest (Suc k) (b # bs)) =
                         Suc (length bs - min (Suc k) f)"
      by (simp add: f_def)
    also have "\<dots> = Suc (length bs) - min (Suc k) f"
      using le by arith
    finally show ?thesis
      using False by (simp add: f_def)
  qed
qed

lemma spec_removeFromHighest_subset: "set (spec_removeFromHighest k bs) \<subseteq> set bs"
  by (induction k bs rule: spec_removeFromHighest.induct) auto

lemma spec_removeFromHighest_removes_highest:
  assumes "sorted_wrt (\<lambda>a b. b_id b < b_id a) bs"
    and "b \<in> set (spec_removeFromHighest k bs)" and "b_state b = SLEEPING"
    and "r \<in> set bs" and "r \<notin> set (spec_removeFromHighest k bs)"
  shows "b_id b < b_id r"
  using assms
proof (induction k bs rule: spec_removeFromHighest.induct)
  case (1 bs)
  then show ?case by simp
next
  case (2 k)
  then show ?case by simp
next
  case (3 k x bs)
  show ?case
  proof (cases "b_state x = SLEEPING")
    case True
    with "3.prems" have kept: "b \<in> set (spec_removeFromHighest k bs)"
      and gone: "r \<notin> set (spec_removeFromHighest k bs)" by simp_all
    from kept spec_removeFromHighest_subset have "b \<in> set bs" by blast
    show ?thesis
    proof (cases "r = x")
      case True
      with \<open>b \<in> set bs\<close> "3.prems"(1) show ?thesis by simp
    next
      case False
      with "3.prems" have "r \<in> set bs" by simp
      with "3.IH"(1) [OF True _ kept "3.prems"(3) _ gone] "3.prems"(1) show ?thesis by simp
    qed
  next
    case False
    with "3.prems" have kept: "b \<in> set (spec_removeFromHighest (Suc k) bs)"
      and gone: "r \<notin> set (spec_removeFromHighest (Suc k) bs)" and "r \<noteq> x"
      by auto
    with "3.prems" have "r \<in> set bs" by simp
    with "3.IH"(2) [OF False _ kept "3.prems"(3) _ gone] "3.prems"(1) show ?thesis by simp
  qed
qed

lemma renumber_length [simp]: "length (renumber bs) = length bs"
  by (simp add: renumber_def)

lemma renumber_nth:
  "i < length bs \<Longrightarrow> renumber bs ! i = (bs ! i)\<lparr>b_id := i + 1\<rparr>"
  by (simp add: renumber_def nth_enumerate_eq)

lemma renumber_ids: "map b_id (renumber bs) = [1..<Suc (length bs)]"
  by (rule nth_equalityI) (simp_all add: renumber_nth del: upt_Suc)

subsection \<open>The ids of the barbers\<close>

text \<open>
  In every reachable state the barber at index \<open>i\<close> has id \<open>i + 1\<close>: the handlers
  change other fields of a barber, append barbers numbered on from the length, or
  renumber. So the first sleeping barber of the array is the sleeping barber of lowest
  id, and the ids ascend along the array.
\<close>

lemma map_b_id_update:
  assumes "b_id y = b_id (xs ! i)"
  shows "map b_id (xs[i := y]) = map b_id xs"
proof (cases "i < length xs")
  case True
  with assms show ?thesis by (simp add: map_update list_update_same_conv)
next
  case False
  then have "length xs \<le> i" by simp
  then show ?thesis by (simp add: list_update_beyond)
qed

lemma finishCustomer_ids:
  assumes "finishCustomer s newTime c (l, p) = Inr (l', p')"
  shows "map b_id (updatedBarbers l') = map b_id (updatedBarbers l)"
  using assms
  by (auto simp: finishCustomer_def Let_def map_b_id_update
           split: option.splits if_splits list.splits)

lemma forEach_finishCustomer_ids:
  assumes "forEach (finishCustomer s newTime) cs (l, p) = Inr (l', p')"
  shows "map b_id (updatedBarbers l') = map b_id (updatedBarbers l)"
  using assms
proof (induction cs arbitrary: l p)
  case Nil
  then show ?case by simp
next
  case (Cons c cs)
  from Cons.prems obtain l1 p1 where
    first: "finishCustomer s newTime c (l, p) = Inr (l1, p1)" and
    rest: "forEach (finishCustomer s newTime) cs (l1, p1) = Inr (l', p')"
    by (auto split: sum.splits)
  from finishCustomer_ids [OF first] Cons.IH [OF rest] show ?case by simp
qed

lemma addCustomerWithName_ids:
  assumes "map b_id (barbers p) = map b_id (barbers s)"
  shows "map b_id (barbers (addCustomerWithName name s p)) = map b_id (barbers s)"
  using assms
  by (auto simp: addCustomerWithName_def startIfNotRunning_def Let_def map_b_id_update
           split: option.splits)

lemma processTimeStep_ids:
  assumes "processTimeStep u v timeStep s s = Inr s'"
  shows "map b_id (barbers s') = map b_id (barbers s)"
proof (cases "\<not> isRunning s \<or> isPaused s")
  case True
  with assms show ?thesis by (auto simp: processTimeStep_def)
next
  case False
  let ?start = "(\<lparr>updatedBarbers = barbers s, finishedCustomers = [],
                  updatedCurrentCustomers = currentCustomers s, customersToRemove = []\<rparr>,
                 s\<lparr>currentTime := currentTime s + timeStep\<rparr>)"
  from False assms obtain l p2 where
    loop: "forEach (finishCustomer s (currentTime s + timeStep)) (currentCustomers s) ?start =
             Inr (l, p2)"
    by (auto simp: processTimeStep_def Let_def split: sum.splits)
  from forEach_finishCustomer_ids [OF loop]
  have ids: "map b_id (updatedBarbers l) = map b_id (barbers s)"
    by simp
  define p4 where "p4 = (let p3 = p2\<lparr>barbers := updatedBarbers l,
        currentCustomers := filter (\<lambda>customer. c_id customer \<notin> set (customersToRemove l))
                               (updatedCurrentCustomers l)\<rparr>
      in if length (finishedCustomers l) > 0
         then p3\<lparr>servedCustomers := servedCustomers p3 @ finishedCustomers l\<rparr> else p3)"
  have p4: "map b_id (barbers p4) = map b_id (barbers s)"
    by (simp add: p4_def Let_def ids)
  from False assms loop have "s' = p4 \<or> s' = addRandomCustomer v s p4"
    by (auto simp: processTimeStep_def Let_def p4_def split: if_splits)
  then show ?thesis
    using p4 addCustomerWithName_ids [OF p4] by (auto simp: addRandomCustomer_def Let_def)
qed

lemma updateBarberCount_ids:
  assumes "map b_id (barbers s) = [1..<Suc (length (barbers s))]"
  shows "map b_id (barbers (updateBarberCount n s s)) =
         [1..<Suc (length (barbers (updateBarberCount n s s)))]"
proof -
  have grow: "map b_id (barbers s @ map (\<lambda>index. newBarber (length (barbers s) + index + 1)) [0..<m]) =
              [1..<Suc (length (barbers s) + m)]" for m
    using assms
    by (intro nth_equalityI) (auto simp: nth_append newBarber_def simp del: upt_Suc dest: arg_cong [where f = length])
  show ?thesis
    using assms grow by (auto simp: updateBarberCount_def Let_def renumber_ids simp del: upt_Suc)
qed

lemma reachable_barber_ids:
  "reachable s \<Longrightarrow> map b_id (barbers s) = [1..<Suc (length (barbers s))]"
proof (induction rule: reachable.induct)
  case reach_init
  show ?case
    by (simp add: initializeSimulation_def initialState_def newBarber_def)
next
  case (reach_add s name)
  from addCustomerWithName_ids [of s s name] have
    "map b_id (barbers (addCustomerWithName name s s)) = map b_id (barbers s)" by simp
  moreover from this have "length (barbers (addCustomerWithName name s s)) = length (barbers s)"
    by (rule map_eq_imp_length_eq)
  ultimately show ?case using reach_add.IH by simp
next
  case (reach_step s timeStep u v s')
  from processTimeStep_ids [OF reach_step.hyps(7)] have
    ids: "map b_id (barbers s') = map b_id (barbers s)" .
  then have "length (barbers s') = length (barbers s)"
    by (rule map_eq_imp_length_eq)
  with ids reach_step.IH show ?case by simp
next
  case (reach_barbers s n)
  then show ?case by (intro updateBarberCount_ids)
next
  case (reach_chairs s n)
  then show ?case by (auto simp: updateChairCount_def Let_def simp del: upt_Suc)
qed

lemma reachable_ids_ascending:
  "reachable s \<Longrightarrow> sorted_wrt (<) (map b_id (barbers s))"
  by (simp add: reachable_barber_ids del: upt_Suc)

text \<open>
  Claim C7. When the barber count is lowered (the request clamped to 1..5), with the
  barbers' ids ascending along the array: barbers are removed from the highest id down,
  working barbers are passed over and all of them are kept, in order; the number removed
  is the requested decrease capped by the number of sleeping barbers; every sleeping
  barber kept had a lower id than every barber removed; the barbers kept are renumbered
  1..M and are otherwise unchanged; and the served and turned-away lists, with the
  \<open>servedBy\<close> they record, are untouched, as are the queue and the customers in service.
\<close>

theorem updateBarberCount_shrinks_from_the_highest:
  assumes "clampCount 5 n < numBarbers s"
    and "sorted_wrt (<) (map b_id (barbers s))"
  shows "let k = numBarbers s - clampCount 5 n;
             kept = rev (spec_removeFromHighest k (rev (barbers s)));
             s' = updateBarberCount n s s
         in barbers s' = renumber kept \<and>
            length (barbers s') = length kept \<and>
            (\<forall>i < length kept. barbers s' ! i = (kept ! i)\<lparr>b_id := i + 1\<rparr>) \<and>
            map b_id (barbers s') = [1..<Suc (length kept)] \<and>
            filter (\<lambda>b. b_state b = WORKING) kept =
              filter (\<lambda>b. b_state b = WORKING) (barbers s) \<and>
            length kept =
              length (barbers s) - min k (length (filter (\<lambda>b. b_state b = SLEEPING) (barbers s))) \<and>
            (\<forall>b \<in> set kept. b_state b = SLEEPING \<longrightarrow>
               (\<forall>r \<in> set (barbers s) - set kept. b_id b < b_id r)) \<and>
            numBarbers s' = clampCount 5 n \<and>
            servedCustomers s' = servedCustomers s \<and>
            turnedAwayCustomers s' = turnedAwayCustomers s \<and>
            currentCustomers s' = currentCustomers s \<and>
            waitingCustomers s' = waitingCustomers s"
proof -
  define k where "k = numBarbers s - clampCount 5 n"
  define kept where "kept = rev (spec_removeFromHighest k (rev (barbers s)))"
  define s' where "s' = updateBarberCount n s s"
  have s': "s' = s\<lparr>barbers := renumber kept, numBarbers := clampCount 5 n\<rparr>"
    using assms(1) by (simp add: s'_def updateBarberCount_def Let_def removeLoop_spec kept_def k_def)
  have working: "filter (\<lambda>b. b_state b = WORKING) kept =
                 filter (\<lambda>b. b_state b = WORKING) (barbers s)"
    unfolding kept_def
    by (simp add: rev_filter [symmetric] spec_removeFromHighest_working)
  have len: "length kept =
             length (barbers s) - min k (length (filter (\<lambda>b. b_state b = SLEEPING) (barbers s)))"
    unfolding kept_def
    by (simp add: spec_removeFromHighest_length rev_filter [symmetric])
  have descending: "sorted_wrt (\<lambda>a b. b_id b < b_id a) (rev (barbers s))"
    using assms(2) by (simp add: sorted_wrt_rev sorted_wrt_map)
  have highest: "\<forall>b \<in> set kept. b_state b = SLEEPING \<longrightarrow>
                   (\<forall>r \<in> set (barbers s) - set kept. b_id b < b_id r)"
    unfolding kept_def
    using spec_removeFromHighest_removes_highest [OF descending] by auto
  show ?thesis
    unfolding Let_def k_def [symmetric] kept_def [symmetric] s'_def [symmetric]
    using working len highest by (simp add: s' renumber_nth renumber_ids)
qed

text \<open>
  Three barbers, the first two at work, and a request for one barber: only the third can
  go, so two barbers remain while \<open>numBarbers\<close> becomes 1.
\<close>

theorem updateBarberCount_shrinks_from_the_highest_witness:
  "clampCount 5 1 < numBarbers threeBarbersTwoBusy \<and>
   sorted_wrt (<) (map b_id (barbers threeBarbersTwoBusy)) \<and>
   map b_state (barbers threeBarbersTwoBusy) = [WORKING, WORKING, SLEEPING] \<and>
   map b_state (barbers (updateBarberCount 1 threeBarbersTwoBusy threeBarbersTwoBusy)) =
     [WORKING, WORKING] \<and>
   map b_id (barbers (updateBarberCount 1 threeBarbersTwoBusy threeBarbersTwoBusy)) = [1, 2] \<and>
   numBarbers (updateBarberCount 1 threeBarbersTwoBusy threeBarbersTwoBusy) = 1"
proof -
  have less: "clampCount 5 1 < numBarbers threeBarbersTwoBusy"
    by (simp add: threeBarbersTwoBusy_eq clampCount_def)
  have ascending: "sorted_wrt (<) (map b_id (barbers threeBarbersTwoBusy))"
    by (simp add: threeBarbersTwoBusy_eq)
  have k: "numBarbers threeBarbersTwoBusy - clampCount 5 1 = Suc (Suc 0)"
    by (simp add: threeBarbersTwoBusy_eq clampCount_def)
  from updateBarberCount_shrinks_from_the_highest [OF less ascending]
  have "barbers (updateBarberCount 1 threeBarbersTwoBusy threeBarbersTwoBusy) =
          renumber (rev (spec_removeFromHighest (Suc (Suc 0)) (rev (barbers threeBarbersTwoBusy))))"
    and "numBarbers (updateBarberCount 1 threeBarbersTwoBusy threeBarbersTwoBusy) = clampCount 5 1"
    by (simp_all add: Let_def k)
  then show ?thesis
    using less ascending
    by (simp add: threeBarbersTwoBusy_eq renumber_def enumerate_eq_zip clampCount_def upt_rec)
qed

section \<open>The average wait\<close>

text \<open>
  Claim C9, as stated: the average wait equals the arithmetic mean of
  \<open>serviceStartTime - arrivalTime\<close> over the served customers. For one customer who waited
  9/8 the mean is 9/8 and the code returns 11/10: it rounds to one decimal place.
\<close>

theorem averageWaitTime_is_rounded:
  "averageWaitTime [waitedNineEighths] = 11 / 10 \<and>
   spec_meanWait [waitedNineEighths] = 9 / 8 \<and>
   averageWaitTime [waitedNineEighths] \<noteq> spec_meanWait [waitedNineEighths]"
  by (simp add: averageWaitTime_def spec_meanWait_def waitedNineEighths_def servedOrArrived_def
        mathRound_def)

lemma foldl_plus_sum_list:
  "foldl (\<lambda>total c. total + f c) a cs = a + sum_list (map f cs)" for a :: real
  by (induction cs arbitrary: a) simp_all

lemma mathRound_close: "\<bar>mathRound (x * 10) / 10 - x\<bar> \<le> 1 / 20"
proof -
  define k :: real where "k = of_int \<lfloor>x * 10 + 1 / 2\<rfloor>"
  have lower: "k \<le> x * 10 + 1 / 2"
    unfolding k_def by (rule of_int_floor_le)
  have upper: "x * 10 + 1 / 2 < k + 1"
    unfolding k_def by linarith
  have "k / 10 - x \<le> 1 / 20" and "x - k / 10 \<le> 1 / 20"
    using lower upper by simp_all
  then have "\<bar>k / 10 - x\<bar> \<le> 1 / 20"
    by linarith
  then show ?thesis
    unfolding mathRound_def k_def [symmetric] .
qed

text \<open>
  Claim C9, amended. When every served customer has \<open>timeServed\<close> set (and arrived at 0 if
  it is 0), the average wait is the arithmetic mean of \<open>timeServed - timeArrived\<close>
  rounded to one decimal place, a tie going up, so it is within 1/20 of the mean; for an
  empty list it is 0.
\<close>

theorem averageWaitTime_rounded_mean:
  assumes "\<forall>c \<in> set served. \<exists>t. timeServed c = Some t \<and> (t = 0 \<longrightarrow> timeArrived c = 0)"
  shows "averageWaitTime served =
           (if served = [] then 0 else of_int \<lfloor>spec_meanWait served * 10 + 1 / 2\<rfloor> / 10) \<and>
         \<bar>averageWaitTime served - spec_meanWait served\<bar> \<le> 1 / 20"
proof (cases "served = []")
  case True
  then show ?thesis by (simp add: averageWaitTime_def spec_meanWait_def)
next
  case False
  have each: "servedOrArrived c - timeArrived c = the (timeServed c) - timeArrived c"
    if "c \<in> set served" for c
    using assms that by (auto simp: servedOrArrived_def)
  have total: "foldl (\<lambda>total c. total + (servedOrArrived c - timeArrived c)) 0 served =
               (\<Sum>c\<leftarrow>served. the (timeServed c) - timeArrived c)"
    using each by (simp add: foldl_plus_sum_list cong: map_cong)
  have avg: "averageWaitTime served = mathRound (spec_meanWait served * 10) / 10"
    using False by (simp add: averageWaitTime_def spec_meanWait_def Let_def total)
  show ?thesis
    using False mathRound_close [of "spec_meanWait served"]
    by (simp add: avg) (simp add: mathRound_def)
qed

text \<open>The amended claim at the customer who waited 9/8.\<close>

theorem averageWaitTime_rounded_mean_witness:
  "timeServed waitedNineEighths = Some (9 / 8) \<and>
   averageWaitTime [waitedNineEighths] =
     of_int \<lfloor>spec_meanWait [waitedNineEighths] * 10 + 1 / 2\<rfloor> / 10 \<and>
   \<bar>averageWaitTime [waitedNineEighths] - spec_meanWait [waitedNineEighths]\<bar> \<le> 1 / 20"
proof -
  have sat: "timeServed waitedNineEighths = Some (9 / 8)"
    by (simp add: waitedNineEighths_def)
  have "\<exists>t. timeServed waitedNineEighths = Some t \<and> (t = 0 \<longrightarrow> timeArrived waitedNineEighths = 0)"
    by (rule exI [of _ "9 / 8"]) (simp add: waitedNineEighths_def)
  then have served: "\<forall>c \<in> set [waitedNineEighths].
                  \<exists>t. timeServed c = Some t \<and> (t = 0 \<longrightarrow> timeArrived c = 0)"
    by (simp del: ex_simps)
  from averageWaitTime_rounded_mean [OF served] sat show ?thesis
    by simp
qed

section \<open>A sleeping barber and a queue\<close>

lemma updateBarberCount_grow:
  assumes "numBarbers s < clampCount 5 n"
  shows "waitingCustomers (updateBarberCount n s s) = waitingCustomers s \<and>
         currentCustomers (updateBarberCount n s s) = currentCustomers s \<and>
         barbers (updateBarberCount n s s) =
           barbers s @ map (\<lambda>index. newBarber (length (barbers s) + index + 1))
                         [0..<clampCount 5 n - length (barbers s)]"
  using assms by (simp add: updateBarberCount_def Let_def)

text \<open>
  Claim C10. Whenever the render shows a sleeping barber, a new customer goes straight to
  the first sleeping barber, in state \<open>GETTING_HAIRCUT\<close> with no wait, and the queue is
  left as it is, whoever waits in it. Raising the barber count appends sleeping barbers
  and leaves the queue and the customers in service alone, so a state with a sleeping
  barber and a waiting customer is reachable: \<open>queueAndSleeper\<close>.
\<close>

theorem sleeping_barber_serves_newcomer_before_queue:
  "(\<forall>name s p. (\<exists>b \<in> set (barbers s). b_state b = SLEEPING) \<longrightarrow>
      (\<exists>i c. findIndex (\<lambda>b. b_state b = SLEEPING) (barbers s) = Some i \<and>
         i < length (barbers s) \<and> b_state (barbers s ! i) = SLEEPING \<and>
         waitingCustomers (addCustomerWithName name s p) = waitingCustomers p \<and>
         turnedAwayCustomers (addCustomerWithName name s p) = turnedAwayCustomers p \<and>
         currentCustomers (addCustomerWithName name s p) = currentCustomers p @ [c] \<and>
         c_id c = nextCustomerId s \<and> c_name c = name \<and> c_state c = GETTING_HAIRCUT \<and>
         servedBy c = Some (i + 1) \<and> timeServed c = Some (timeArrived c) \<and>
         b_state (barbers (addCustomerWithName name s p) ! i) = WORKING \<and>
         servingCustomerId (barbers (addCustomerWithName name s p) ! i) = Some (nextCustomerId s))) \<and>
   (\<forall>n s. numBarbers s < clampCount 5 n \<longrightarrow>
      waitingCustomers (updateBarberCount n s s) = waitingCustomers s \<and>
      currentCustomers (updateBarberCount n s s) = currentCustomers s \<and>
      (\<exists>new. barbers (updateBarberCount n s s) = barbers s @ new \<and>
         length new = clampCount 5 n - length (barbers s) \<and>
         (\<forall>b \<in> set new. b_state b = SLEEPING \<and> servingCustomerId b = None))) \<and>
   reachable queueAndSleeper \<and> waitingCustomers queueAndSleeper \<noteq> [] \<and>
   (\<exists>b \<in> set (barbers queueAndSleeper). b_state b = SLEEPING)"
proof (intro conjI allI impI)
  fix name :: string and s p :: Sim
  assume "\<exists>b \<in> set (barbers s). b_state b = SLEEPING"
  from findIndex_first [OF this] obtain i where
    i: "findIndex (\<lambda>b. b_state b = SLEEPING) (barbers s) = Some i" "i < length (barbers s)"
       "b_state (barbers s ! i) = SLEEPING"
    by blast
  from addCustomerWithName_sleeping [OF i(1,2), of name p] i
  show "\<exists>i c. findIndex (\<lambda>b. b_state b = SLEEPING) (barbers s) = Some i \<and>
         i < length (barbers s) \<and> b_state (barbers s ! i) = SLEEPING \<and>
         waitingCustomers (addCustomerWithName name s p) = waitingCustomers p \<and>
         turnedAwayCustomers (addCustomerWithName name s p) = turnedAwayCustomers p \<and>
         currentCustomers (addCustomerWithName name s p) = currentCustomers p @ [c] \<and>
         c_id c = nextCustomerId s \<and> c_name c = name \<and> c_state c = GETTING_HAIRCUT \<and>
         servedBy c = Some (i + 1) \<and> timeServed c = Some (timeArrived c) \<and>
         b_state (barbers (addCustomerWithName name s p) ! i) = WORKING \<and>
         servingCustomerId (barbers (addCustomerWithName name s p) ! i) = Some (nextCustomerId s)"
    by (intro exI [of _ i] exI [of _ "\<lparr>c_id = nextCustomerId s, c_name = name,
             c_state = GETTING_HAIRCUT,
             timeArrived = currentTime s, timeServed = Some (currentTime s), timeLeft = None,
             servedBy = Some (i + 1), waitingPosition = None,
             c_serviceEndTime = Some (currentTime s + serviceTime s)\<rparr>"]) simp
next
  fix n :: int and s :: Sim
  assume "numBarbers s < clampCount 5 n"
  from updateBarberCount_grow [OF this]
  show "waitingCustomers (updateBarberCount n s s) = waitingCustomers s"
    and "currentCustomers (updateBarberCount n s s) = currentCustomers s"
    and "\<exists>new. barbers (updateBarberCount n s s) = barbers s @ new \<and>
         length new = clampCount 5 n - length (barbers s) \<and>
         (\<forall>b \<in> set new. b_state b = SLEEPING \<and> servingCustomerId b = None)"
    by (auto simp: newBarber_def)
next
  show "reachable queueAndSleeper" by (rule reachable_queueAndSleeper)
  show "waitingCustomers queueAndSleeper \<noteq> []" by (simp add: queueAndSleeper_eq)
  show "\<exists>b \<in> set (barbers queueAndSleeper). b_state b = SLEEPING"
    by (simp add: queueAndSleeper_eq)
qed

text \<open>
  In \<open>queueAndSleeper\<close> customer B waits; the newcomer C is served at once and B is still
  the queue.
\<close>

theorem sleeping_barber_serves_newcomer_before_queue_witness:
  "(\<exists>b \<in> set (barbers queueAndSleeper). b_state b = SLEEPING) \<and>
   map c_id (waitingCustomers queueAndSleeper) = [2] \<and>
   map c_id (waitingCustomers (addCustomerWithName ''C'' queueAndSleeper queueAndSleeper)) = [2] \<and>
   map c_id (currentCustomers (addCustomerWithName ''C'' queueAndSleeper queueAndSleeper)) = [1, 3] \<and>
   map c_state (currentCustomers (addCustomerWithName ''C'' queueAndSleeper queueAndSleeper)) =
     [GETTING_HAIRCUT, GETTING_HAIRCUT] \<and>
   numBarbers oneBusyOneWaiting < clampCount 5 2 \<and>
   map b_state (barbers (updateBarberCount 2 oneBusyOneWaiting oneBusyOneWaiting)) =
     [WORKING, SLEEPING]"
proof -
  have sleeper: "\<exists>b \<in> set (barbers queueAndSleeper). b_state b = SLEEPING"
    by (simp add: queueAndSleeper_eq)
  have grows: "numBarbers oneBusyOneWaiting < clampCount 5 2"
    by (simp add: oneBusyOneWaiting_eq clampCount_def)
  from sleeping_barber_serves_newcomer_before_queue
  have add: "\<exists>i c. findIndex (\<lambda>b. b_state b = SLEEPING) (barbers queueAndSleeper) = Some i \<and>
         i < length (barbers queueAndSleeper) \<and> b_state (barbers queueAndSleeper ! i) = SLEEPING \<and>
         waitingCustomers (addCustomerWithName ''C'' queueAndSleeper queueAndSleeper) =
           waitingCustomers queueAndSleeper \<and>
         turnedAwayCustomers (addCustomerWithName ''C'' queueAndSleeper queueAndSleeper) =
           turnedAwayCustomers queueAndSleeper \<and>
         currentCustomers (addCustomerWithName ''C'' queueAndSleeper queueAndSleeper) =
           currentCustomers queueAndSleeper @ [c] \<and>
         c_id c = nextCustomerId queueAndSleeper \<and> c_name c = ''C'' \<and>
         c_state c = GETTING_HAIRCUT \<and>
         servedBy c = Some (i + 1) \<and> timeServed c = Some (timeArrived c) \<and>
         b_state (barbers (addCustomerWithName ''C'' queueAndSleeper queueAndSleeper) ! i) = WORKING \<and>
         servingCustomerId (barbers (addCustomerWithName ''C'' queueAndSleeper queueAndSleeper) ! i) =
           Some (nextCustomerId queueAndSleeper)"
    using sleeper by blast
  from sleeping_barber_serves_newcomer_before_queue grows
  have "\<exists>new. barbers (updateBarberCount 2 oneBusyOneWaiting oneBusyOneWaiting) =
           barbers oneBusyOneWaiting @ new \<and>
         length new = clampCount 5 2 - length (barbers oneBusyOneWaiting) \<and>
         (\<forall>b \<in> set new. b_state b = SLEEPING \<and> servingCustomerId b = None)"
    by blast
  then obtain new where new:
    "barbers (updateBarberCount 2 oneBusyOneWaiting oneBusyOneWaiting) = barbers oneBusyOneWaiting @ new"
    "length new = clampCount 5 2 - length (barbers oneBusyOneWaiting)"
    "\<forall>b \<in> set new. b_state b = SLEEPING \<and> servingCustomerId b = None"
    by blast
  from new(2) have "length new = 1"
    by (simp add: oneBusyOneWaiting_eq clampCount_def)
  then obtain b where "new = [b]"
    by (cases new) auto
  with new(1,3) have grown:
    "map b_state (barbers (updateBarberCount 2 oneBusyOneWaiting oneBusyOneWaiting)) =
       [WORKING, SLEEPING]"
    by (simp add: oneBusyOneWaiting_eq)
  from add obtain i :: nat and c where
    "waitingCustomers (addCustomerWithName ''C'' queueAndSleeper queueAndSleeper) =
       waitingCustomers queueAndSleeper"
    "currentCustomers (addCustomerWithName ''C'' queueAndSleeper queueAndSleeper) =
       currentCustomers queueAndSleeper @ [c]"
    "c_id c = nextCustomerId queueAndSleeper" "c_state c = GETTING_HAIRCUT"
    by blast
  then show ?thesis
    using sleeper grows grown by (simp add: queueAndSleeper_eq)
qed

end
